theory Spec2Isabelle
  imports Complex_Main "HOL-Library.Sublist"
begin

section \<open>JavaScript values as the report view receives them\<close>

text \<open>
  The client script \<^verbatim>\<open>static/app.js\<close> renders a JSON document. A JavaScript string is
  modelled as a \<^typ>\<open>string\<close>, one \<^typ>\<open>char\<close> per UTF-16 code unit; this is exact for
  code units below 256. A number is a double: not-a-number, the two infinities, or the
  rational a finite double denotes (the sign of zero is not kept: no operation used
  here tells \<open>-0\<close> from \<open>0\<close>). Arithmetic rounds its exact result to the nearest double.
\<close>

datatype error = TypeError | SyntaxError | NetworkError

datatype jsnum = NaN | PosInf | NegInf | Finite rat

datatype jsval =
    Undefined
  | Null
  | Bool bool
  | Num jsnum
  | Str string
  | Arr "jsval list"
  | Obj "(string \<times> jsval) list"

subsection \<open>Exceptions as values\<close>

definition bnd :: "error + 'a \<Rightarrow> ('a \<Rightarrow> error + 'b) \<Rightarrow> error + 'b" where
  "bnd m f = (case m of Inl e \<Rightarrow> Inl e | Inr a \<Rightarrow> f a)"

fun mapM :: "('a \<Rightarrow> error + 'b) \<Rightarrow> 'a list \<Rightarrow> error + 'b list" where
  "mapM f [] = Inr []"
| "mapM f (x # xs) = bnd (f x) (\<lambda>y. bnd (mapM f xs) (\<lambda>ys. Inr (y # ys)))"

text \<open>A template literal: the pieces are evaluated left to right and concatenated.\<close>

definition template :: "(error + string) list \<Rightarrow> error + string" where
  "template ps = bnd (mapM id ps) (\<lambda>ss. Inr (concat ss))"

subsection \<open>Doubles\<close>

fun bitlen_nat :: "nat \<Rightarrow> nat" where
  "bitlen_nat n = (if n = 0 then 0 else Suc (bitlen_nat (n div 2)))"

declare bitlen_nat.simps [simp del]

text \<open>For \<open>0 < a\<close>, the \<open>k\<close> with \<open>2 ^ k \<le> a < 2 ^ (k + 1)\<close>.\<close>

definition floor_log2 :: "rat \<Rightarrow> int" where
  "floor_log2 a =
     (if 1 \<le> a then int (bitlen_nat (nat \<lfloor>a\<rfloor>)) - 1
      else - int (bitlen_nat (nat (\<lceil>1 / a\<rceil> - 1))))"

definition round_half_even :: "rat \<Rightarrow> int" where
  "round_half_even x =
     (let f = \<lfloor>x\<rfloor>; d = x - of_int f
      in if d < 1 / 2 then f else if 1 / 2 < d then f + 1 else if even f then f else f + 1)"

text \<open>
  Rounding to binary64, ties to even: 53 significant bits, the least exponent
  \<open>-1074\<close>, overflow to infinity from \<open>2 ^ 1024\<close>.
\<close>

definition round_d :: "rat \<Rightarrow> jsnum" where
  "round_d q =
     (if q = 0 then Finite 0
      else let a = \<bar>q\<bar>;
               e = max (floor_log2 a - 52) (- 1074);
               r = of_int (round_half_even (a / 2 powi e)) * 2 powi e
           in if 2 powi 1024 \<le> r then (if 0 < q then PosInf else NegInf)
              else Finite (sgn q * r))"

definition is_double :: "rat \<Rightarrow> bool" where
  "is_double q = (round_d q = Finite q)"

fun num_div :: "jsnum \<Rightarrow> jsnum \<Rightarrow> jsnum" where
  "num_div (Finite a) (Finite b) =
     (if b = 0 then (if a = 0 then NaN else if 0 < a then PosInf else NegInf)
      else round_d (a / b))"
| "num_div (Finite a) PosInf = Finite 0"
| "num_div (Finite a) NegInf = Finite 0"
| "num_div PosInf (Finite b) = (if 0 \<le> b then PosInf else NegInf)"
| "num_div NegInf (Finite b) = (if 0 \<le> b then NegInf else PosInf)"
| "num_div _ _ = NaN"

fun num_mul :: "jsnum \<Rightarrow> jsnum \<Rightarrow> jsnum" where
  "num_mul (Finite a) (Finite b) = round_d (a * b)"
| "num_mul NaN _ = NaN"
| "num_mul _ NaN = NaN"
| "num_mul (Finite a) PosInf = (if a = 0 then NaN else if 0 < a then PosInf else NegInf)"
| "num_mul (Finite a) NegInf = (if a = 0 then NaN else if 0 < a then NegInf else PosInf)"
| "num_mul PosInf (Finite b) = (if b = 0 then NaN else if 0 < b then PosInf else NegInf)"
| "num_mul NegInf (Finite b) = (if b = 0 then NaN else if 0 < b then NegInf else PosInf)"
| "num_mul PosInf PosInf = PosInf"
| "num_mul NegInf NegInf = PosInf"
| "num_mul PosInf NegInf = NegInf"
| "num_mul NegInf PosInf = NegInf"

text \<open>The comparison \<^verbatim>\<open>a >= b\<close>: false as soon as one side is not a number.\<close>

fun num_ge :: "jsnum \<Rightarrow> jsnum \<Rightarrow> bool" where
  "num_ge NaN _ = False"
| "num_ge _ NaN = False"
| "num_ge PosInf _ = True"
| "num_ge _ NegInf = True"
| "num_ge NegInf _ = False"
| "num_ge _ PosInf = False"
| "num_ge (Finite a) (Finite b) = (b \<le> a)"

fun num_max2 :: "jsnum \<Rightarrow> jsnum \<Rightarrow> jsnum" where
  "num_max2 a b = (if a = NaN then NaN else if b = NaN then NaN else if num_ge a b then a else b)"

text \<open>\<^verbatim>\<open>Math.max(...xs)\<close>: starts from minus infinity, not-a-number wins.\<close>

definition math_max :: "jsnum list \<Rightarrow> jsnum" where
  "math_max xs = foldl num_max2 NegInf xs"

text \<open>\<^verbatim>\<open>n|0\<close>: truncation, then wrap-around to a signed 32-bit integer.\<close>

definition to_int32 :: "jsnum \<Rightarrow> int" where
  "to_int32 n =
     (case n of
        Finite q \<Rightarrow>
          (let t = (if 0 \<le> q then \<lfloor>q\<rfloor> else \<lceil>q\<rceil>); m = t mod 2 ^ 32
           in if 2 ^ 31 \<le> m then m - 2 ^ 32 else m)
      | _ \<Rightarrow> 0)"

subsection \<open>Numbers to strings\<close>

definition digit_char :: "nat \<Rightarrow> char" where
  "digit_char d = ''0123456789'' ! d"

fun decimal :: "nat \<Rightarrow> string" where
  "decimal n =
     (if n < 10 then [digit_char n] else decimal (n div 10) @ [digit_char (n mod 10)])"

declare decimal.simps [simp del]

definition show_int :: "int \<Rightarrow> string" where
  "show_int i = (if i < 0 then ''-'' @ decimal (nat (- i)) else decimal (nat i))"

text \<open>For \<open>0 < a\<close>, the \<open>n\<close> with \<open>10 ^ (n - 1) \<le> a < 10 ^ n\<close>.\<close>

definition dec_exp :: "rat \<Rightarrow> int" where
  "dec_exp a =
     (if 1 \<le> a then int (length (decimal (nat \<lfloor>a\<rfloor>)))
      else 1 - int (length (decimal (nat (\<lceil>1 / a\<rceil> - 1)))))"

text \<open>
  \<^verbatim>\<open>Number::toString\<close> picks the fewest digits \<open>s\<close> and the exponent with
  \<open>s * 10 ^ e\<close> rounding to the double, the closest such \<open>s\<close> when there are two.
  A candidate is a pair \<open>(s, e)\<close>.
\<close>

definition cand_val :: "nat \<times> int \<Rightarrow> rat" where
  "cand_val c = of_nat (fst c) * 10 powi (snd c)"

definition cands :: "rat \<Rightarrow> int \<Rightarrow> nat \<Rightarrow> (nat \<times> int) list" where
  "cands a n k = (let e = n - int k; lo = nat \<lfloor>a / 10 powi e\<rfloor> in [(lo, e), (lo + 1, e)])"

definition closest :: "rat \<Rightarrow> nat \<times> int \<Rightarrow> nat \<times> int \<Rightarrow> nat \<times> int" where
  "closest a c1 c2 =
     (let d1 = \<bar>a - cand_val c1\<bar>; d2 = \<bar>a - cand_val c2\<bar>
      in if d1 < d2 then c1 else if d2 < d1 then c2 else if even (fst c1) then c1 else c2)"

fun shortest :: "nat \<Rightarrow> rat \<Rightarrow> int \<Rightarrow> nat \<Rightarrow> nat \<times> int" where
  "shortest 0 a n k = (case cands a n k of [c1, c2] \<Rightarrow> closest a c1 c2 | _ \<Rightarrow> (0, 0))"
| "shortest (Suc fuel) a n k =
     (case filter (\<lambda>c. round_d (cand_val c) = Finite a) (cands a n k) of
        [] \<Rightarrow> shortest fuel a n (Suc k)
      | [c] \<Rightarrow> c
      | c1 # c2 # _ \<Rightarrow> closest a c1 c2)"

fun strip_zeros :: "string \<Rightarrow> string" where
  "strip_zeros s = rev (dropWhile (\<lambda>c. c = CHR ''0'') (rev s))"

definition show_pos :: "rat \<Rightarrow> string" where
  "show_pos a =
     (let c = shortest 16 a (dec_exp a) 1;
          ds = strip_zeros (decimal (fst c));
          k = int (length ds);
          n = int (length (decimal (fst c))) + snd c
      in if k \<le> n \<and> n \<le> 21 then ds @ replicate (nat (n - k)) CHR ''0''
         else if 0 < n \<and> n \<le> 21 then take (nat n) ds @ ''.'' @ drop (nat n) ds
         else if - 6 < n \<and> n \<le> 0 then ''0.'' @ replicate (nat (- n)) CHR ''0'' @ ds
         else (if k = 1 then ds else take 1 ds @ ''.'' @ drop 1 ds)
              @ ''e'' @ (if 0 \<le> n - 1 then ''+'' else ''-'') @ decimal (nat \<bar>n - 1\<bar>))"

fun num_to_string :: "jsnum \<Rightarrow> string" where
  "num_to_string NaN = ''NaN''"
| "num_to_string PosInf = ''Infinity''"
| "num_to_string NegInf = ''-Infinity''"
| "num_to_string (Finite q) =
     (if q = 0 then ''0'' else if q < 0 then ''-'' @ show_pos (- q) else show_pos q)"

text \<open>
  \<^verbatim>\<open>toFixed(1)\<close>: from \<open>10 ^ 21\<close> on, and for a value that is not finite, the plain
  conversion; below, the tenths nearest to the value, the larger when two are as near.
\<close>

fun toFixed1 :: "jsnum \<Rightarrow> string" where
  "toFixed1 (Finite q) =
     (if 10 ^ 21 \<le> \<bar>q\<bar> then num_to_string (Finite q)
      else let t = nat \<lfloor>\<bar>q\<bar> * 10 + 1 / 2\<rfloor>
           in (if q < 0 then ''-'' else '''') @ decimal (t div 10) @ ''.'' @ decimal (t mod 10))"
| "toFixed1 n = num_to_string n"

subsection \<open>Strings to numbers\<close>

text \<open>
  \<^verbatim>\<open>Number(s)\<close> on a string: white space is trimmed; the empty string is 0; then a
  literal with a radix prefix, or an optionally signed decimal literal or
  \<^verbatim>\<open>Infinity\<close>; anything else is not a number.
\<close>

definition is_ws :: "char \<Rightarrow> bool" where
  "is_ws c = (c \<in> set [CHR 0x09, CHR 0x0A, CHR 0x0B, CHR 0x0C, CHR 0x0D, CHR 0x20, CHR 0xA0])"

definition trim :: "string \<Rightarrow> string" where
  "trim s = rev (dropWhile is_ws (rev (dropWhile is_ws s)))"

definition digit_of :: "char \<Rightarrow> nat" where
  "digit_of c =
     (let n = (of_char c :: nat)
      in if 48 \<le> n \<and> n \<le> 57 then n - 48
         else if 97 \<le> n \<and> n \<le> 102 then n - 87
         else if 65 \<le> n \<and> n \<le> 70 then n - 55
         else 99)"

definition digits_val :: "nat \<Rightarrow> string \<Rightarrow> nat" where
  "digits_val b ds = foldl (\<lambda>a c. a * b + digit_of c) 0 ds"

definition is_dec :: "char \<Rightarrow> bool" where
  "is_dec c = (digit_of c < 10)"

definition radix_lit :: "nat \<Rightarrow> string \<Rightarrow> jsnum" where
  "radix_lit b ds =
     (if ds = [] then NaN
      else if list_all (\<lambda>c. digit_of c < b) ds then round_d (of_nat (digits_val b ds))
      else NaN)"

definition exponent_part :: "string \<Rightarrow> int option" where
  "exponent_part r =
     (case r of
        [] \<Rightarrow> Some 0
      | c # r' \<Rightarrow>
          if c = CHR ''e'' \<or> c = CHR ''E'' then
            (let neg = (case r' of x # _ \<Rightarrow> x = CHR ''-'' | [] \<Rightarrow> False);
                 ds = (case r' of x # r'' \<Rightarrow> if x = CHR ''-'' \<or> x = CHR ''+'' then r'' else r'
                       | [] \<Rightarrow> [])
             in if ds = [] then None
                else if list_all is_dec ds
                  then Some ((if neg then - 1 else 1) * int (digits_val 10 ds))
                else None)
          else None)"

definition unsigned_lit :: "string \<Rightarrow> jsnum" where
  "unsigned_lit t =
     (if t = ''Infinity'' then PosInf
      else let ip = takeWhile is_dec t;
               r1 = dropWhile is_dec t;
               dot = (case r1 of c # _ \<Rightarrow> c = CHR ''.'' | [] \<Rightarrow> False);
               fp = (if dot then takeWhile is_dec (tl r1) else []);
               r2 = (if dot then dropWhile is_dec (tl r1) else r1)
           in if ip = [] \<and> fp = [] then NaN
              else (case exponent_part r2 of
                      None \<Rightarrow> NaN
                    | Some e \<Rightarrow>
                        round_d (of_nat (digits_val 10 (ip @ fp)) * 10 powi (e - int (length fp)))))"

fun num_neg :: "jsnum \<Rightarrow> jsnum" where
  "num_neg (Finite q) = Finite (- q)"
| "num_neg PosInf = NegInf"
| "num_neg NegInf = PosInf"
| "num_neg NaN = NaN"

definition radix_of :: "string \<Rightarrow> nat" where
  "radix_of t =
     (case t of
        c # x # _ \<Rightarrow>
          if c = CHR ''0'' then
            (if x \<in> set ''xX'' then 16 else if x \<in> set ''oO'' then 8
             else if x \<in> set ''bB'' then 2 else 10)
          else 10
      | _ \<Rightarrow> 10)"

definition str_to_num :: "string \<Rightarrow> jsnum" where
  "str_to_num s =
     (let t = trim s
      in if t = [] then Finite 0
         else if radix_of t < 10 \<or> 10 < radix_of t then radix_lit (radix_of t) (drop 2 t)
         else if hd t = CHR ''-'' then num_neg (unsigned_lit (tl t))
         else if hd t = CHR ''+'' then unsigned_lit (tl t)
         else unsigned_lit t)"

subsection \<open>Conversions and operators on values\<close>

fun truthy :: "jsval \<Rightarrow> bool" where
  "truthy Undefined = False"
| "truthy Null = False"
| "truthy (Bool b) = b"
| "truthy (Num n) = (case n of NaN \<Rightarrow> False | Finite q \<Rightarrow> q \<noteq> 0 | _ \<Rightarrow> True)"
| "truthy (Str s) = (s \<noteq> [])"
| "truthy (Arr xs) = True"
| "truthy (Obj kvs) = True"

text \<open>\<^verbatim>\<open>a || b\<close> and \<^verbatim>\<open>a ?? b\<close>.\<close>

definition or_else :: "jsval \<Rightarrow> jsval \<Rightarrow> jsval" where
  "or_else a b = (if truthy a then a else b)"

definition nullish :: "jsval \<Rightarrow> jsval \<Rightarrow> jsval" where
  "nullish a b = (if a = Undefined then b else if a = Null then b else a)"

text \<open>
  \<^verbatim>\<open>String(v)\<close>, also the conversion of a \<^verbatim>\<open>${v}\<close> in a template literal. An array
  joins its elements with commas, \<^verbatim>\<open>null\<close> and \<^verbatim>\<open>undefined\<close> elements as empty
  strings. An object parsed from JSON inherits \<^verbatim>\<open>toString\<close>, unless it has a property
  of that name: this is then no function, and the conversion throws.
\<close>

fun to_string :: "jsval \<Rightarrow> error + string"
  and join_elems :: "jsval list \<Rightarrow> error + string" where
  "to_string Undefined = Inr ''undefined''"
| "to_string Null = Inr ''null''"
| "to_string (Bool b) = Inr (if b then ''true'' else ''false'')"
| "to_string (Num n) = Inr (num_to_string n)"
| "to_string (Str s) = Inr s"
| "to_string (Arr xs) = join_elems xs"
| "to_string (Obj kvs) =
     (case map_of kvs ''toString'' of None \<Rightarrow> Inr ''[object Object]'' | Some _ \<Rightarrow> Inl TypeError)"
| "join_elems [] = Inr []"
| "join_elems [x] = (if x = Undefined then Inr [] else if x = Null then Inr [] else to_string x)"
| "join_elems (x # y # ys) =
     bnd (if x = Undefined then Inr [] else if x = Null then Inr [] else to_string x)
       (\<lambda>s. bnd (join_elems (y # ys)) (\<lambda>r. Inr (s @ '','' @ r)))"

text \<open>\<^verbatim>\<open>Number(v)\<close>.\<close>

definition to_number :: "jsval \<Rightarrow> error + jsnum" where
  "to_number v =
     (case v of
        Undefined \<Rightarrow> Inr NaN
      | Null \<Rightarrow> Inr (Finite 0)
      | Bool b \<Rightarrow> Inr (Finite (if b then 1 else 0))
      | Num n \<Rightarrow> Inr n
      | Str s \<Rightarrow> Inr (str_to_num s)
      | _ \<Rightarrow> bnd (to_string v) (\<lambda>s. Inr (str_to_num s)))"

text \<open>
  Reading a property \<^verbatim>\<open>v.k\<close>, for the names the script reads: the fields of the
  document, and \<^verbatim>\<open>length\<close>. On \<^verbatim>\<open>null\<close> and \<^verbatim>\<open>undefined\<close> it throws.
\<close>

definition get :: "jsval \<Rightarrow> string \<Rightarrow> error + jsval" where
  "get v k =
     (case v of
        Undefined \<Rightarrow> Inl TypeError
      | Null \<Rightarrow> Inl TypeError
      | Obj kvs \<Rightarrow> Inr (case map_of kvs k of Some x \<Rightarrow> x | None \<Rightarrow> Undefined)
      | Str s \<Rightarrow> Inr (if k = ''length'' then Num (Finite (of_nat (length s))) else Undefined)
      | Arr xs \<Rightarrow> Inr (if k = ''length'' then Num (Finite (of_nat (length xs))) else Undefined)
      | _ \<Rightarrow> Inr Undefined)"

text \<open>\<^verbatim>\<open>v.map(f)\<close>: only an array has the method.\<close>

definition js_map :: "jsval \<Rightarrow> (jsval \<Rightarrow> error + 'b) \<Rightarrow> error + 'b list" where
  "js_map v f = (case v of Arr xs \<Rightarrow> mapM f xs | _ \<Rightarrow> Inl TypeError)"

text \<open>
  \<^verbatim>\<open>Object.assign({}, v)\<close>: a fresh object that is assigned the own enumerable
  properties of \<open>v\<close>, which for a string or an array are its indices. The assignment of
  the key \<^verbatim>\<open>__proto__\<close>, an own property of an object parsed from JSON, does not create
  a property: it runs the setter that the fresh object inherits, which makes an object
  value the prototype of the fresh object and ignores a primitive value (\<^verbatim>\<open>null\<close>
  removes the prototype, from which the script reads nothing). The script only reads
  properties of the result, by names other than \<^verbatim>\<open>__proto__\<close>: the result is given as the
  object that has the assigned properties first, then those found through the new
  prototype, so that reading it finds an own property before an inherited one.
\<close>

definition object_assign :: "jsval \<Rightarrow> jsval" where
  "object_assign v =
     (case v of
        Obj kvs \<Rightarrow>
          Obj (filter (\<lambda>(k, x). k \<noteq> ''__proto__'') kvs @
               (case map_of kvs ''__proto__'' of Some (Obj ps) \<Rightarrow> ps | _ \<Rightarrow> []))
      | Str s \<Rightarrow> Obj (zip (map decimal [0..<length s]) (map (\<lambda>c. Str [c]) s))
      | Arr xs \<Rightarrow> Obj (zip (map decimal [0..<length xs]) xs)
      | _ \<Rightarrow> Obj [])"

section \<open>Formatter\<close>

text \<open>
  \<^verbatim>\<open>function esc(s){ return String(s ?? '').replace(/[&<>"']/g, m => ({...}[m])); }\<close>
\<close>

definition entities :: "(char \<times> string) list" where
  \<open>entities =
     [(CHR ''&'', ''&amp;''), (CHR ''<'', ''&lt;''), (CHR ''>'', ''&gt;''),
      (CHR 0x22, ''&quot;''), (CHR 0x27, ''&#39;'')]\<close>

definition replace_char :: "char \<Rightarrow> string" where
  "replace_char m =
     (if m \<in> set [CHR ''&'', CHR ''<'', CHR ''>'', CHR 0x22, CHR 0x27]
      then (case map_of entities m of Some e \<Rightarrow> e | None \<Rightarrow> ''undefined'')
      else [m])"

definition esc :: "jsval \<Rightarrow> error + string" where
  "esc s = bnd (to_string (nullish s (Str []))) (\<lambda>t. Inr (concat (map replace_char t)))"

text \<open>
  \<^verbatim>\<open>function bytes(n){ if(n==null||n==='')return ''; n=Number(n);
  const u=['B','KB','MB','GB']; let i=0; while(n>=1024&&i<u.length-1){n/=1024;i++;}
  return (i?n.toFixed(1):n|0)+' '+u[i]; }\<close>
  (the array \<^verbatim>\<open>u\<close> is \<open>units\<close> here).
\<close>

definition units :: "string list" where
  "units = [''B'', ''KB'', ''MB'', ''GB'']"

function scale :: "jsnum \<Rightarrow> nat \<Rightarrow> jsnum \<times> nat" where
  "scale n i =
     (if num_ge n (Finite 1024) \<and> i < length units - 1
      then scale (num_div n (Finite 1024)) (i + 1) else (n, i))"
  by pat_completeness auto
termination
  by (relation "measure (\<lambda>(n, i). length units - 1 - i)") auto

declare scale.simps [simp del]

definition bytes :: "jsval \<Rightarrow> error + string" where
  "bytes n =
     (if n = Undefined then Inr []
      else if n = Null then Inr []
      else if n = Str [] then Inr []
      else bnd (to_number n) (\<lambda>x.
        case scale x 0 of
          (v, i) \<Rightarrow> Inr ((if i = 0 then show_int (to_int32 v) else toFixed1 v) @ '' '' @ units ! i)))"

text \<open>
  \<^verbatim>\<open>function short(u){ try{ const x=new URL(u); return
  (x.hostname+(x.pathname||'')).slice(0,60); }catch(e){ return (u||'').slice(0,60); } }\<close>

  The URL parser is the browser's; it is a parameter \<open>url\<close>, giving the host name and
  the path name of a string that parses. The constructor converts its argument to a
  string first, inside the \<^verbatim>\<open>try\<close>. In the handler, a string and an array have
  \<^verbatim>\<open>slice\<close>; any other truthy value has not, and the call throws.
\<close>

type_synonym url_parser = "string \<Rightarrow> (string \<times> string) option"

definition short :: "url_parser \<Rightarrow> jsval \<Rightarrow> error + jsval" where
  "short url v =
     (case (case to_string v of Inl e \<Rightarrow> None | Inr s \<Rightarrow> url s) of
        Some (hostname, pathname) \<Rightarrow> Inr (Str (take 60 (hostname @ pathname)))
      | None \<Rightarrow>
          (case or_else v (Str []) of
             Str s \<Rightarrow> Inr (Str (take 60 s))
           | Arr xs \<Rightarrow> Inr (Arr (take 60 xs))
           | _ \<Rightarrow> Inl TypeError))"

section \<open>The page\<close>

text \<open>
  The script writes two properties of each of the four report containers,
  \<^verbatim>\<open>style.display\<close> and \<^verbatim>\<open>innerHTML\<close>, and \<^verbatim>\<open>innerHTML\<close> of the chart mount point
  \<^verbatim>\<open>netChart\<close>, an element that exists only while the Network container holds the
  markup that declares it. \<open>innerHTML\<close> is the string last assigned; \<open>alerts\<close> are the
  messages shown by \<^verbatim>\<open>alert\<close>, oldest first. A run ends normally or with an uncaught
  exception; what it wrote before stays written.
\<close>

record element =
  display :: string
  innerHTML :: string

record page =
  meta :: element
  archive :: element
  matrix :: element
  network :: element
  netChart :: "string option"
  alerts :: "string list"

type_synonym outcome = "error option \<times> page"

definition shown :: "string \<Rightarrow> element" where
  "shown h = \<lparr>display = ''block'', innerHTML = h\<rparr>"

definition hidden :: element where
  "hidden = \<lparr>display = ''none'', innerHTML = []\<rparr>"

text \<open>
  \<^verbatim>\<open>document.getElementById(elId).innerHTML = h\<close>, for the identifiers of the page
  model; no element (\<^verbatim>\<open>null\<close>) makes the assignment throw. New content of the
  Network container removes the old mount point.
\<close>

definition set_innerHTML :: "string \<Rightarrow> string \<Rightarrow> page \<Rightarrow> outcome" where
  "set_innerHTML elId h pg =
     (if elId = ''meta'' then (None, pg\<lparr>meta := (meta pg)\<lparr>innerHTML := h\<rparr>\<rparr>)
      else if elId = ''archive'' then (None, pg\<lparr>archive := (archive pg)\<lparr>innerHTML := h\<rparr>\<rparr>)
      else if elId = ''matrix'' then (None, pg\<lparr>matrix := (matrix pg)\<lparr>innerHTML := h\<rparr>\<rparr>)
      else if elId = ''network''
        then (None, pg\<lparr>network := (network pg)\<lparr>innerHTML := h\<rparr>, netChart := None\<rparr>)
      else if elId = ''netChart''
        then (case netChart pg of
                None \<Rightarrow> (Some TypeError, pg)
              | Some _ \<Rightarrow> (None, pg\<lparr>netChart := Some h\<rparr>))
      else (Some TypeError, pg))"

section \<open>Chart Renderer\<close>

text \<open>
  \<^verbatim>\<open>function drawBars(elId, data)\<close>: \<open>data\<close> is an array of objects
  \<^verbatim>\<open>{name, size}\<close>, the size a number.
\<close>

record bar =
  d_name :: jsval
  d_size :: jsnum

definition chart_max :: "bar list \<Rightarrow> jsnum" where
  "chart_max data = math_max (map d_size data @ [Finite 1])"

definition bar_width :: "jsnum \<Rightarrow> bar \<Rightarrow> string" where
  "bar_width mx d = toFixed1 (num_mul (num_div (d_size d) mx) (Finite 100))"

definition bar_row :: "jsnum \<Rightarrow> bar \<Rightarrow> error + string" where
  \<open>bar_row mx d = template
     [Inr ''\<newline>    <div style="display:flex;align-items:center;gap:8px;margin:4px 0">\<newline>      <div class="list" style="flex:1;white-space:nowrap;overflow:hidden;text-overflow:ellipsis">'',
      esc (d_name d),
      Inr ''</div>\<newline>      <div style="width:260px;background:#1b1b1f;border:1px solid #2a2a30;border-radius:6px;height:16px;position:relative">\<newline>        <div style="position:absolute;left:0;top:0;bottom:0;width:'',
      Inr (bar_width mx d),
      Inr ''%;background:#22c55e;border-radius:6px"></div>\<newline>      </div>\<newline>      <div style="width:80px;text-align:right">'',
      bytes (Num (d_size d)),
      Inr ''</div>\<newline>    </div>'']\<close>

definition drawBars :: "string \<Rightarrow> bar list \<Rightarrow> page \<Rightarrow> outcome" where
  "drawBars elId data pg =
     (case mapM (bar_row (chart_max data)) data of
        Inl e \<Rightarrow> (Some e, pg)
      | Inr rows \<Rightarrow> set_innerHTML elId (concat rows) pg)"

section \<open>Section Renderers\<close>

definition fld :: "jsval \<Rightarrow> string \<Rightarrow> (jsval \<Rightarrow> error + 'a) \<Rightarrow> error + 'a" where
  "fld v k f = bnd (get v k) f"

subsection \<open>Metadata\<close>

definition previewBtn :: "jsval \<Rightarrow> error + string" where
  \<open>previewBtn run = template
     [Inr ''<a class="btn" href="/runs/'',
      to_string run,
      Inr ''/view" target="_blank">Open Creative Preview</a>'']\<close>

definition meta_html :: "string \<Rightarrow> jsval \<Rightarrow> string \<Rightarrow> error + string" where
  \<open>meta_html btn md name = template
     [Inr ''\<newline>    <h2>Metadata</h2>\<newline>    '',
      Inr btn,
      Inr ''\<newline>    <div class="kv" style="margin-top:12px">\<newline>      <div>Scan Type</div><div>'',
      fld md ''scan_type'' (\<lambda>x. esc (or_else x (Str ''Web scan''))),
      Inr ''</div>\<newline>      <div>API Version</div><div>'',
      fld md ''api_version'' (\<lambda>x. esc (or_else x (Str ''v1''))),
      Inr ''</div>\<newline>      <div>Unix Timestamp</div><div>'',
      fld md ''unix_timestamp'' (\<lambda>x. bnd (to_string (or_else x (Str []))) (\<lambda>s. esc (Str s))),
      Inr ''</div>\<newline>      <div>Scan Duration</div><div>'',
      fld md ''scan_duration'' (\<lambda>x. bnd (to_string (or_else x (Str []))) (\<lambda>s. esc (Str s))),
      Inr '' seconds</div>\<newline>      <div>Creative Type</div><div>'',
      fld md ''creative_type'' (\<lambda>x. esc (or_else x (Str ''HTML5 Zip''))),
      Inr ''</div>\<newline>      <div>Original Name</div><div>'',
      fld md ''original_name'' (\<lambda>x. esc (or_else (or_else x (Str name)) (Str []))),
      Inr ''</div>\<newline>      <div>Device</div><div>'',
      fld md ''device'' (\<lambda>x. esc (or_else x (Str ''Desktop''))),
      Inr ''</div>\<newline>      <div>Language</div><div>'',
      fld md ''language'' (\<lambda>x. esc (or_else x (Str ''en-US''))),
      Inr ''</div>\<newline>      <div>User-Agent</div><div class="list">'',
      fld md ''user_agent'' (\<lambda>x. esc (or_else x (Str []))),
      Inr ''</div>\<newline>    </div>'']\<close>

subsection \<open>Archive\<close>

text \<open>The two glyphs of the first column, each written as its four UTF-8 bytes.\<close>

definition folder_glyph :: string where
  "folder_glyph = [CHR 0xF0, CHR 0x9F, CHR 0x93, CHR 0x81]"

definition file_glyph :: string where
  "file_glyph = [CHR 0xF0, CHR 0x9F, CHR 0x93, CHR 0x84]"

definition archive_row :: "jsval \<Rightarrow> error + string" where
  \<open>archive_row e = template
     [Inr ''\<newline>    <tr><td>'',
      fld e ''is_dir'' (\<lambda>x. Inr (if truthy x then folder_glyph else file_glyph)),
      Inr ''</td>\<newline>        <td>'',
      fld e ''name'' esc,
      Inr ''</td>\<newline>        <td class="ta-r">'',
      fld e ''size'' bytes,
      Inr ''</td>\<newline>        <td class="ta-r">'',
      fld e ''compressed'' bytes,
      Inr ''</td></tr>'']\<close>

definition archive_html :: "jsval \<Rightarrow> error + string" where
  \<open>archive_html data =
     fld data ''archive'' (\<lambda>a. bnd (js_map (or_else a (Arr [])) archive_row) (\<lambda>rows. template
       [Inr ''\<newline>    <h2>ZIP Archive</h2>\<newline>    <table class="table"><thead>\<newline>      <tr><th></th><th>Filename</th><th class="ta-r">File Size</th><th class="ta-r">Compressed</th></tr>\<newline>    </thead><tbody>'',
        Inr (concat rows),
        Inr ''</tbody></table>'']))\<close>

subsection \<open>Checks and thumbnails\<close>

definition thumb_fig :: "jsval \<Rightarrow> jsval \<Rightarrow> error + string" where
  \<open>thumb_fig run t = template
     [Inr ''<figure style="margin:0">\<newline>        <a href="/runs/'',
      to_string run,
      Inr ''/backup.png?t='',
      fld t ''t_sec'' to_string,
      Inr ''" download="backup_'',
      fld t ''t_sec'' to_string,
      Inr ''.png" title="Download as Backup">\<newline>          <img src="'',
      fld t ''png_b64'' to_string,
      Inr ''" alt="'',
      fld t ''t_sec'' to_string,
      Inr ''s" style="height:84px;border-radius:6px;border:1px solid #2a2a30">\<newline>        </a>\<newline>        <figcaption class="meta" style="text-align:center">'',
      fld t ''t_sec'' to_string,
      Inr '' sec</figcaption>\<newline>      </figure>'']\<close>

definition thumbRow :: "jsval \<Rightarrow> jsval \<Rightarrow> error + string" where
  \<open>thumbRow run data =
     fld data ''thumbnails'' (\<lambda>x. fld (or_else x (Arr [])) ''length'' (\<lambda>len.
       if truthy len then template
         [Inr ''\<newline>    <div style="display:flex;gap:8px;flex-wrap:wrap;margin:8px 0 16px 0">\<newline>      '',
          bnd (js_map (or_else x (Arr [])) (thumb_fig run)) (\<lambda>figs. Inr (concat figs)),
          Inr ''\<newline>    </div>'']
       else Inr []))\<close>

definition test_row :: "jsval \<Rightarrow> error + string" where
  \<open>test_row r = template
     [Inr ''\<newline>    <tr>\<newline>      <td>'',
      fld r ''category'' (\<lambda>x. esc (or_else x (Str ''-''))),
      Inr ''</td>\<newline>      <td>'',
      fld r ''label'' esc,
      Inr ''</td>\<newline>      <td class="ta-r"><span class="badge '',
      fld r ''status'' to_string,
      Inr ''">'',
      fld r ''value'' esc,
      Inr ''</span>\<newline>        '',
      fld r ''help'' (\<lambda>x.
        if truthy x then template [Inr ''<div class="help">'', fld r ''help'' esc, Inr ''</div>'']
        else Inr []),
      Inr ''</td>\<newline>    </tr>'']\<close>

definition matrix_html :: "jsval \<Rightarrow> jsval \<Rightarrow> error + string" where
  \<open>matrix_html run data =
     bnd (thumbRow run data) (\<lambda>row.
     fld data ''results'' (\<lambda>x. bnd (js_map (or_else x (Arr [])) test_row) (\<lambda>tests. template
       [Inr ''<h2>Checks</h2>'',
        Inr row,
        Inr ''\<newline>    <table class="table"><thead><tr><th>Category</th><th>Test</th><th class="ta-r">Result</th></tr></thead>\<newline>    <tbody>'',
        Inr (concat tests),
        Inr ''</tbody></table>''])))\<close>

subsection \<open>Network\<close>

text \<open>
  \<^verbatim>\<open>(data.runtime && data.runtime.network_requests) ? data.runtime.network_requests : []\<close>
\<close>

definition net_of :: "jsval \<Rightarrow> error + jsval" where
  "net_of data =
     fld data ''runtime'' (\<lambda>r.
       if truthy r
       then fld r ''network_requests'' (\<lambda>q. if truthy q then get r ''network_requests'' else Inr (Arr []))
       else Inr (Arr []))"

definition net_row :: "url_parser \<Rightarrow> jsval \<Rightarrow> error + string" where
  \<open>net_row url n = template
     [Inr ''\<newline>      <tr>\<newline>        <td>'',
      fld n ''url'' (\<lambda>x. bnd (short url x) esc),
      Inr ''</td>\<newline>        <td>'',
      fld n ''status'' (\<lambda>x. to_string (nullish x (Str []))),
      Inr ''</td>\<newline>        <td>'',
      fld n ''protocol'' (\<lambda>x. esc (or_else x (Str []))),
      Inr ''</td>\<newline>        <td>'',
      fld n ''enc'' (\<lambda>x. esc (or_else x (Str []))),
      Inr ''</td>\<newline>        <td class="ta-r">'',
      fld n ''bytes'' (\<lambda>x. if truthy x then fld n ''bytes'' bytes else Inr []),
      Inr ''</td>\<newline>        <td>'',
      fld n ''type'' (\<lambda>x. esc (or_else x (Str []))),
      Inr ''</td>\<newline>      </tr>'']\<close>

definition network_html :: "url_parser \<Rightarrow> jsval \<Rightarrow> error + string" where
  \<open>network_html url net =
     bnd (js_map net (net_row url)) (\<lambda>nrows. template
       [Inr ''<h2>Network Requests</h2>\<newline>      <div id="netChart" style="height:260px;margin:8px 0 12px 0"></div>\<newline>      <table class="table"><thead>\<newline>        <tr><th>Resource URL</th><th>Status</th><th>Protocol</th><th>Enc</th><th class="ta-r">Bytes</th><th>Type</th></tr>\<newline>      </thead><tbody>'',
        Inr (concat nrows),
        Inr ''</tbody></table>''])\<close>

text \<open>
  \<^verbatim>\<open>net.map(n=>({name: short(n.url), size: Number(n.bytes||0)})).slice(0,12)\<close>
\<close>

definition chart_entry :: "url_parser \<Rightarrow> jsval \<Rightarrow> error + bar" where
  "chart_entry url n =
     fld n ''url'' (\<lambda>x. bnd (short url x) (\<lambda>nm.
     fld n ''bytes'' (\<lambda>b. bnd (to_number (or_else b (Num (Finite 0)))) (\<lambda>sz.
       Inr \<lparr>d_name = nm, d_size = sz\<rparr>))))"

definition chart_data :: "url_parser \<Rightarrow> jsval \<Rightarrow> error + bar list" where
  "chart_data url net = bnd (js_map net (chart_entry url)) (\<lambda>ds. Inr (take 12 ds))"

subsection \<open>The whole report\<close>

text \<open>
  \<^verbatim>\<open>function renderAll(data, name)\<close>. Each section computes its markup, which may
  throw, and then assigns it and shows the container.
\<close>

definition render_network :: "url_parser \<Rightarrow> jsval \<Rightarrow> page \<Rightarrow> outcome" where
  "render_network url data pg =
     (case bnd (net_of data) (\<lambda>net. fld net ''length'' (\<lambda>len. Inr (net, truthy len))) of
        Inl e \<Rightarrow> (Some e, pg)
      | Inr (net, nonempty) \<Rightarrow>
          if nonempty then
            (case network_html url net of
               Inl e \<Rightarrow> (Some e, pg)
             | Inr h \<Rightarrow>
                 (case chart_data url net of
                    Inl e \<Rightarrow> (Some e, pg\<lparr>network := shown h, netChart := Some []\<rparr>)
                  | Inr ds \<Rightarrow> drawBars ''netChart'' ds (pg\<lparr>network := shown h, netChart := Some []\<rparr>)))
          else (None, pg))"

definition renderAll :: "url_parser \<Rightarrow> jsval \<Rightarrow> string \<Rightarrow> page \<Rightarrow> outcome" where
  "renderAll url data name pg =
     (case get data ''run_id'' of
        Inl e \<Rightarrow> (Some e, pg)
      | Inr run \<Rightarrow>
     (case bnd (previewBtn run) (\<lambda>btn.
             fld data ''metadata'' (\<lambda>x. meta_html btn (object_assign (or_else x (Obj []))) name)) of
        Inl e \<Rightarrow> (Some e, pg)
      | Inr m \<Rightarrow>
     (case archive_html data of
        Inl e \<Rightarrow> (Some e, pg\<lparr>meta := shown m\<rparr>)
      | Inr a \<Rightarrow>
     (case matrix_html run data of
        Inl e \<Rightarrow> (Some e, pg\<lparr>meta := shown m, archive := shown a\<rparr>)
      | Inr c \<Rightarrow>
          render_network url data (pg\<lparr>meta := shown m, archive := shown a, matrix := shown c\<rparr>)))))"

section \<open>Upload Controller\<close>

text \<open>
  \<^verbatim>\<open>async function upload(f)\<close>. The reply of \<^verbatim>\<open>fetch\<close> is the input: a rejection, or
  a response with its \<^verbatim>\<open>ok\<close> flag and the result of \<^verbatim>\<open>res.json()\<close>, which fails on
  a body that is not JSON. \<open>name\<close> is \<^verbatim>\<open>f.name\<close>.
\<close>

record response =
  ok :: bool
  json :: "error + jsval"

definition cleared :: "page \<Rightarrow> page" where
  "cleared pg =
     pg\<lparr>meta := hidden, archive := hidden, matrix := hidden, network := hidden, netChart := None\<rparr>"

text \<open>\<^verbatim>\<open>!res.ok || data.error\<close>\<close>

definition failed :: "response \<Rightarrow> jsval \<Rightarrow> error + bool" where
  "failed res data = (if ok res then fld data ''error'' (\<lambda>e. Inr (truthy e)) else Inr True)"

text \<open>\<^verbatim>\<open>alert(data.error || 'Upload failed')\<close>\<close>

definition alert_error :: "jsval \<Rightarrow> page \<Rightarrow> outcome" where
  "alert_error data pg =
     (case fld data ''error'' (\<lambda>e. to_string (or_else e (Str ''Upload failed''))) of
        Inl e \<Rightarrow> (Some e, pg)
      | Inr msg \<Rightarrow> (None, pg\<lparr>alerts := alerts pg @ [msg]\<rparr>))"

definition upload :: "url_parser \<Rightarrow> error + response \<Rightarrow> string \<Rightarrow> page \<Rightarrow> outcome" where
  "upload url fetched name pg =
     (case fetched of
        Inl e \<Rightarrow> (Some e, cleared pg)
      | Inr res \<Rightarrow>
     (case json res of
        Inl e \<Rightarrow> (Some e, cleared pg)
      | Inr data \<Rightarrow>
     (case failed res data of
        Inl e \<Rightarrow> (Some e, cleared pg)
      | Inr True \<Rightarrow> alert_error data (cleared pg)
      | Inr False \<Rightarrow> renderAll url data name (cleared pg))))"

section \<open>Notions used to state the properties\<close>

text \<open>
  A string is entity-encoded when it reads as a sequence of characters other than
  \<^verbatim>\<open>& < > " '\<close> and of the five entities: every \<^verbatim>\<open>&\<close> in it starts an entity, and the
  other four characters do not occur.
\<close>

fun entity_encoded :: "string \<Rightarrow> bool" where
  "entity_encoded [] = True"
| "entity_encoded (c # cs) =
     (if c = CHR ''&'' then
        (if take 4 cs = ''amp;'' then entity_encoded (drop 4 cs)
         else if take 3 cs = ''lt;'' then entity_encoded (drop 3 cs)
         else if take 3 cs = ''gt;'' then entity_encoded (drop 3 cs)
         else if take 5 cs = ''quot;'' then entity_encoded (drop 5 cs)
         else if take 4 cs = ''#39;'' then entity_encoded (drop 4 cs)
         else False)
      else if c \<in> set [CHR ''<'', CHR ''>'', CHR 0x22, CHR 0x27] then False
      else entity_encoded cs)"

text \<open>The entity form of a character, as the specification lists it.\<close>

definition entity_form :: "char \<Rightarrow> string" where
  \<open>entity_form c =
     (if c = CHR ''&'' then ''&amp;''
      else if c = CHR ''<'' then ''&lt;''
      else if c = CHR ''>'' then ''&gt;''
      else if c = CHR 0x22 then ''&quot;''
      else if c = CHR 0x27 then ''&#39;''
      else [c])\<close>

text \<open>The values that are no objects: they always convert to a string.\<close>

fun primitive :: "jsval \<Rightarrow> bool" where
  "primitive (Arr xs) = False"
| "primitive (Obj kvs) = False"
| "primitive v = True"

text \<open>The text of a string value, empty for any other value.\<close>

fun raw_text :: "jsval \<Rightarrow> string" where
  "raw_text (Str s) = s"
| "raw_text v = []"

text \<open>
  Some results of the browser's URL parser, for concrete runs: a parser that knows one
  address and rejects every other string.
\<close>

definition sample_url :: url_parser where
  "sample_url s =
     (if s = ''https://cdn.example.com/lib/app.js'' then Some (''cdn.example.com'', ''/lib/app.js'')
      else None)"

text \<open>A page before the first upload, with leftovers of an earlier report.\<close>

definition stale_page :: page where
  "stale_page =
     \<lparr>meta = shown ''old'', archive = shown ''old'', matrix = shown ''old'',
      network = shown ''old'', netChart = Some ''old'', alerts = []\<rparr>"

text \<open>
  The sections of a page: the four containers and the chart mount point.
\<close>

definition sections :: "page \<Rightarrow> element \<times> element \<times> element \<times> element \<times> string option" where
  "sections pg = (meta pg, archive pg, matrix pg, network pg, netChart pg)"

text \<open>A computation that returns, rather than throws.\<close>

definition returns :: "error + 'a \<Rightarrow> bool" where
  "returns m = (case m of Inl e \<Rightarrow> False | Inr a \<Rightarrow> True)"

text \<open>
  The shape of an analysis document, as the specification gives it. No field has to be
  present: a missing field reads as \<^verbatim>\<open>undefined\<close>. A scalar field holds a primitive
  value, a sequence is an array of objects with scalar fields, and the address of a
  network request is a string.
\<close>

definition field :: "jsval \<Rightarrow> string \<Rightarrow> jsval" where
  "field v k =
     (case v of
        Obj kvs \<Rightarrow> (case map_of kvs k of Some x \<Rightarrow> x | None \<Rightarrow> Undefined)
      | _ \<Rightarrow> Undefined)"

definition is_object :: "jsval \<Rightarrow> bool" where
  "is_object v = (case v of Obj kvs \<Rightarrow> True | _ \<Rightarrow> False)"

definition missing :: "jsval \<Rightarrow> bool" where
  "missing v = (case v of Undefined \<Rightarrow> True | Null \<Rightarrow> True | _ \<Rightarrow> False)"

definition scalars :: "string list \<Rightarrow> jsval \<Rightarrow> bool" where
  "scalars ks v = (is_object v \<and> list_all (\<lambda>k. primitive (field v k)) ks)"

definition sequence :: "(jsval \<Rightarrow> bool) \<Rightarrow> jsval \<Rightarrow> bool" where
  "sequence p v = (case v of Undefined \<Rightarrow> True | Null \<Rightarrow> True | Arr xs \<Rightarrow> list_all p xs | _ \<Rightarrow> False)"

definition text_or_missing :: "jsval \<Rightarrow> bool" where
  "text_or_missing v = (case v of Undefined \<Rightarrow> True | Null \<Rightarrow> True | Str s \<Rightarrow> True | _ \<Rightarrow> False)"

definition request :: "jsval \<Rightarrow> bool" where
  "request n =
     (scalars [''status'', ''protocol'', ''enc'', ''bytes'', ''type''] n \<and>
      text_or_missing (field n ''url''))"

definition analysis_document :: "jsval \<Rightarrow> bool" where
  "analysis_document d =
     (is_object d \<and>
      primitive (field d ''run_id'') \<and>
      (if missing (field d ''metadata'') then True
       else scalars [''scan_type'', ''api_version'', ''unix_timestamp'', ''scan_duration'',
              ''creative_type'', ''original_name'', ''device'', ''language'', ''user_agent'']
              (field d ''metadata'')) \<and>
      sequence (scalars [''name'', ''is_dir'', ''size'', ''compressed'']) (field d ''archive'') \<and>
      sequence (scalars [''t_sec'', ''png_b64'']) (field d ''thumbnails'') \<and>
      sequence (scalars [''category'', ''label'', ''value'', ''status'', ''help''])
        (field d ''results'') \<and>
      (if missing (field d ''runtime'') then True
       else is_object (field d ''runtime'') \<and>
            sequence request (field (field d ''runtime'') ''network_requests'')))"

text \<open>A document and a response for concrete runs.\<close>

definition sample_doc :: jsval where
  "sample_doc =
     Obj [(''run_id'', Str ''r1''),
          (''archive'', Arr [Obj [(''name'', Str ''index.html''), (''is_dir'', Bool False),
                                  (''size'', Num (Finite 2048)), (''compressed'', Num (Finite 512))]]),
          (''results'', Arr [Obj [(''label'', Str ''SSL''), (''value'', Str ''Pass''),
                                  (''status'', Str ''ok'')]])]"

text \<open>The network requests of a document: none when the field is missing.\<close>

definition requests :: "jsval \<Rightarrow> jsval list" where
  "requests d =
     (case field (field d ''runtime'') ''network_requests'' of Arr ns \<Rightarrow> ns | _ \<Rightarrow> [])"

text \<open>A document whose single check carries markup in its \<^verbatim>\<open>status\<close>.\<close>

definition hostile_doc :: jsval where
  \<open>hostile_doc =
     Obj [(''results'', Arr [Obj [(''label'', Str ''SSL''), (''value'', Str ''Pass''),
                                  (''status'', Str ''"><script>alert(1)</script>'')]])]\<close>

text \<open>
  The unit a byte count is displayed in: the number of divisions by 1024 that leave a
  value of at least 1, at most 3.
\<close>

definition unit_index :: "rat \<Rightarrow> nat" where
  "unit_index q =
     (if q < 1024 then 0 else if q < 1024 ^ 2 then 1 else if q < 1024 ^ 3 then 2 else 3)"

text \<open>A number written with one decimal place: digits, a point, one digit.\<close>

definition one_decimal :: "string \<Rightarrow> bool" where
  "one_decimal s =
     (case rev s of
        d # p # ds \<Rightarrow> is_dec d \<and> p = CHR ''.'' \<and> (if ds = [] then False else list_all is_dec ds)
      | _ \<Rightarrow> False)"

text \<open>The value \<open>x\<close> written with one decimal place, the nearest tenth, halves upwards.\<close>

definition tenths :: "rat \<Rightarrow> string" where
  "tenths x = decimal (nat \<lfloor>x * 10 + 1 / 2\<rfloor> div 10) @ ''.'' @ decimal (nat \<lfloor>x * 10 + 1 / 2\<rfloor> mod 10)"

text \<open>A size that is a finite number, not negative; the value of a finite number.\<close>

definition nonneg :: "jsnum \<Rightarrow> bool" where
  "nonneg n = (case n of Finite q \<Rightarrow> 0 \<le> q | _ \<Rightarrow> False)"

definition value_of :: "jsnum \<Rightarrow> rat" where
  "value_of n = (case n of Finite q \<Rightarrow> q | _ \<Rightarrow> 0)"

text \<open>A bar of infinite size, as the number \<^verbatim>\<open>1e999\<close> of a document reads.\<close>

definition inf_bar :: bar where
  "inf_bar = \<lparr>d_name = Str ''a.js'', d_size = PosInf\<rparr>"

section \<open>The markup of a report\<close>

text \<open>
  What the report of a document is to look like, section by section, written down
  apart from the renderers, which are compared with it below.

  The text a value is displayed as: its conversion to a string; escaped, with the five
  characters replaced by their entities, and empty for \<^verbatim>\<open>null\<close> and \<^verbatim>\<open>undefined\<close>;
  formatted as a byte count. The entries of a sequence: none when the field is missing.
\<close>

definition string_of :: "jsval \<Rightarrow> string" where
  "string_of v = (case to_string v of Inr s \<Rightarrow> s | Inl e \<Rightarrow> [])"

definition escaped :: "jsval \<Rightarrow> string" where
  "escaped v = (if missing v then [] else concat (map entity_form (string_of v)))"

definition formatted :: "jsval \<Rightarrow> string" where
  "formatted v = (case bytes v of Inr s \<Rightarrow> s | Inl e \<Rightarrow> [])"

definition entries :: "jsval \<Rightarrow> jsval list" where
  "entries v = (case v of Arr xs \<Rightarrow> xs | _ \<Rightarrow> [])"

text \<open>
  A metadata field of a document, as the Metadata section reads it: the field of
  \<^verbatim>\<open>metadata\<close>, and when \<^verbatim>\<open>metadata\<close> has no such field, the field of the object that
  \<^verbatim>\<open>metadata\<close> holds under \<^verbatim>\<open>__proto__\<close>, if any.
\<close>

definition metadata_field :: "jsval \<Rightarrow> string \<Rightarrow> jsval" where
  "metadata_field d k =
     (case field d ''metadata'' of
        Obj kvs \<Rightarrow> (case map_of kvs k of Some x \<Rightarrow> x | None \<Rightarrow> field (field (Obj kvs) ''__proto__'') k)
      | _ \<Rightarrow> Undefined)"

text \<open>
  The fields under \<^verbatim>\<open>__proto__\<close> of the metadata are scalars as well, if that is an
  object.
\<close>

definition inherits_scalars :: "jsval \<Rightarrow> bool" where
  "inherits_scalars d =
     (case field (field d ''metadata'') ''__proto__'' of
        Obj ps \<Rightarrow> scalars [''scan_type'', ''api_version'', ''unix_timestamp'', ''scan_duration'',
                    ''creative_type'', ''original_name'', ''device'', ''language'', ''user_agent'']
                    (Obj ps)
      | _ \<Rightarrow> True)"

text \<open>
  The Metadata section: the preview link of the run, and the nine fields, each with
  its fallback.
\<close>

definition preview_link :: "jsval \<Rightarrow> string" where
  \<open>preview_link run =
     ''<a class="btn" href="/runs/''
     @ string_of run
     @ ''/view" target="_blank">Open Creative Preview</a>''\<close>

definition meta_markup :: "jsval \<Rightarrow> string \<Rightarrow> string" where
  \<open>meta_markup d name =
     ''\<newline>    <h2>Metadata</h2>\<newline>    ''
     @ preview_link (field d ''run_id'')
     @ ''\<newline>    <div class="kv" style="margin-top:12px">\<newline>      <div>Scan Type</div><div>''
     @ escaped (or_else (metadata_field d ''scan_type'') (Str ''Web scan''))
     @ ''</div>\<newline>      <div>API Version</div><div>''
     @ escaped (or_else (metadata_field d ''api_version'') (Str ''v1''))
     @ ''</div>\<newline>      <div>Unix Timestamp</div><div>''
     @ escaped (Str (string_of (or_else (metadata_field d ''unix_timestamp'') (Str []))))
     @ ''</div>\<newline>      <div>Scan Duration</div><div>''
     @ escaped (Str (string_of (or_else (metadata_field d ''scan_duration'') (Str []))))
     @ '' seconds</div>\<newline>      <div>Creative Type</div><div>''
     @ escaped (or_else (metadata_field d ''creative_type'') (Str ''HTML5 Zip''))
     @ ''</div>\<newline>      <div>Original Name</div><div>''
     @ escaped (or_else (or_else (metadata_field d ''original_name'') (Str name)) (Str []))
     @ ''</div>\<newline>      <div>Device</div><div>''
     @ escaped (or_else (metadata_field d ''device'') (Str ''Desktop''))
     @ ''</div>\<newline>      <div>Language</div><div>''
     @ escaped (or_else (metadata_field d ''language'') (Str ''en-US''))
     @ ''</div>\<newline>      <div>User-Agent</div><div class="list">''
     @ escaped (or_else (metadata_field d ''user_agent'') (Str []))
     @ ''</div>\<newline>    </div>''\<close>

text \<open>
  The Archive section: a table with one row for each entry, in order: a folder or a
  file glyph, the escaped name, the two formatted sizes.
\<close>

definition archive_line :: "jsval \<Rightarrow> string" where
  \<open>archive_line e =
     ''\<newline>    <tr><td>''
     @ (if truthy (field e ''is_dir'') then [CHR 0xF0, CHR 0x9F, CHR 0x93, CHR 0x81]
        else [CHR 0xF0, CHR 0x9F, CHR 0x93, CHR 0x84])
     @ ''</td>\<newline>        <td>''
     @ escaped (field e ''name'')
     @ ''</td>\<newline>        <td class="ta-r">''
     @ formatted (field e ''size'')
     @ ''</td>\<newline>        <td class="ta-r">''
     @ formatted (field e ''compressed'')
     @ ''</td></tr>''\<close>

definition archive_markup :: "jsval \<Rightarrow> string" where
  \<open>archive_markup d =
     ''\<newline>    <h2>ZIP Archive</h2>\<newline>    <table class="table"><thead>\<newline>      <tr><th></th><th>Filename</th><th class="ta-r">File Size</th><th class="ta-r">Compressed</th></tr>\<newline>    </thead><tbody>''
     @ concat (map archive_line (entries (field d ''archive'')))
     @ ''</tbody></table>''\<close>

text \<open>
  The Checks section: the thumbnails, if there are any, each a figure with a link to
  the backup image of its time, and a table with one row for each check: the category
  or a dash, the label, a badge of the class of the status with the value, and the
  help text if there is one.
\<close>

definition figure :: "jsval \<Rightarrow> jsval \<Rightarrow> string" where
  \<open>figure run t =
     ''<figure style="margin:0">\<newline>        <a href="/runs/''
     @ string_of run
     @ ''/backup.png?t=''
     @ string_of (field t ''t_sec'')
     @ ''" download="backup_''
     @ string_of (field t ''t_sec'')
     @ ''.png" title="Download as Backup">\<newline>          <img src="''
     @ string_of (field t ''png_b64'')
     @ ''" alt="''
     @ string_of (field t ''t_sec'')
     @ ''s" style="height:84px;border-radius:6px;border:1px solid #2a2a30">\<newline>        </a>\<newline>        <figcaption class="meta" style="text-align:center">''
     @ string_of (field t ''t_sec'')
     @ '' sec</figcaption>\<newline>      </figure>''\<close>

definition thumbnails_markup :: "jsval \<Rightarrow> jsval list \<Rightarrow> string" where
  \<open>thumbnails_markup run ts =
     (if ts = [] then []
      else ''\<newline>    <div style="display:flex;gap:8px;flex-wrap:wrap;margin:8px 0 16px 0">\<newline>      ''
           @ concat (map (figure run) ts)
           @ ''\<newline>    </div>'')\<close>

definition check_line :: "jsval \<Rightarrow> string" where
  \<open>check_line r =
     ''\<newline>    <tr>\<newline>      <td>''
     @ escaped (or_else (field r ''category'') (Str ''-''))
     @ ''</td>\<newline>      <td>''
     @ escaped (field r ''label'')
     @ ''</td>\<newline>      <td class="ta-r"><span class="badge ''
     @ string_of (field r ''status'')
     @ ''">''
     @ escaped (field r ''value'')
     @ ''</span>\<newline>        ''
     @ (if truthy (field r ''help'') then ''<div class="help">'' @ escaped (field r ''help'') @ ''</div>'' else [])
     @ ''</td>\<newline>    </tr>''\<close>

definition checks_markup :: "jsval \<Rightarrow> string" where
  \<open>checks_markup d =
     ''<h2>Checks</h2>''
     @ thumbnails_markup (field d ''run_id'') (entries (field d ''thumbnails''))
     @ ''\<newline>    <table class="table"><thead><tr><th>Category</th><th>Test</th><th class="ta-r">Result</th></tr></thead>\<newline>    <tbody>''
     @ concat (map check_line (entries (field d ''results'')))
     @ ''</tbody></table>''\<close>

text \<open>
  A row of the chart: the label, a track with a bar of the given width in percent,
  and the value.
\<close>

definition chart_row :: "string \<Rightarrow> string \<Rightarrow> string \<Rightarrow> string" where
  \<open>chart_row name width val =
     ''\<newline>    <div style="display:flex;align-items:center;gap:8px;margin:4px 0">\<newline>      <div class="list" style="flex:1;white-space:nowrap;overflow:hidden;text-overflow:ellipsis">''
     @ name
     @ ''</div>\<newline>      <div style="width:260px;background:#1b1b1f;border:1px solid #2a2a30;border-radius:6px;height:16px;position:relative">\<newline>        <div style="position:absolute;left:0;top:0;bottom:0;width:''
     @ width
     @ ''%;background:#22c55e;border-radius:6px"></div>\<newline>      </div>\<newline>      <div style="width:80px;text-align:right">''
     @ val
     @ ''</div>\<newline>    </div>''\<close>

text \<open>
  A row of the table of network requests, of six cells, and the Network section with
  its rows.
\<close>

definition request_line ::
  "string \<Rightarrow> string \<Rightarrow> string \<Rightarrow> string \<Rightarrow> string \<Rightarrow> string \<Rightarrow> string" where
  \<open>request_line address status protocol enc amount kind =
     ''\<newline>      <tr>\<newline>        <td>''
     @ address
     @ ''</td>\<newline>        <td>''
     @ status
     @ ''</td>\<newline>        <td>''
     @ protocol
     @ ''</td>\<newline>        <td>''
     @ enc
     @ ''</td>\<newline>        <td class="ta-r">''
     @ amount
     @ ''</td>\<newline>        <td>''
     @ kind
     @ ''</td>\<newline>      </tr>''\<close>

definition network_markup :: "string \<Rightarrow> string" where
  \<open>network_markup rows =
     ''<h2>Network Requests</h2>\<newline>      <div id="netChart" style="height:260px;margin:8px 0 12px 0"></div>\<newline>      <table class="table"><thead>\<newline>        <tr><th>Resource URL</th><th>Status</th><th>Protocol</th><th>Enc</th><th class="ta-r">Bytes</th><th>Type</th></tr>\<newline>      </thead><tbody>''
     @ rows
     @ ''</tbody></table>''\<close>

text \<open>
  The values that convert to a string: a primitive value; an object, unless it has a
  property \<^verbatim>\<open>toString\<close> of its own; an array, if its elements convert.
\<close>

fun converts :: "jsval \<Rightarrow> bool" and converts_all :: "jsval list \<Rightarrow> bool" where
  "converts (Arr xs) = converts_all xs"
| "converts (Obj kvs) = (map_of kvs ''toString'' = None)"
| "converts Undefined = True"
| "converts Null = True"
| "converts (Bool b) = True"
| "converts (Num n) = True"
| "converts (Str s) = True"
| "converts_all [] = True"
| "converts_all (x # xs) = (converts x \<and> converts_all xs)"

text \<open>
  A document whose metadata holds, under \<^verbatim>\<open>__proto__\<close>, an object with a user agent that
  does not convert to a string.
\<close>

definition proto_doc :: jsval where
  "proto_doc =
     Obj [(''metadata'',
           Obj [(''__proto__'', Obj [(''user_agent'', Obj [(''toString'', Num (Finite 1))])])])]"

text \<open>
  A document with two network requests: the \<^verbatim>\<open>bytes\<close> of the first is a string that is
  no number.
\<close>

definition nan_doc :: jsval where
  "nan_doc =
     Obj [(''runtime'',
           Obj [(''network_requests'',
                 Arr [Obj [(''url'', Str ''https://cdn.example.com/lib/app.js''),
                           (''bytes'', Str ''abc'')],
                      Obj [(''url'', Str ''https://cdn.example.com/lib/app.js''),
                           (''bytes'', Num (Finite 2048))]])])]"

text \<open>Three bars, of sizes 0, 512 and 2048.\<close>

definition three_bars :: "bar list" where
  "three_bars =
     [\<lparr>d_name = Str ''a&b.js'', d_size = Finite 0\<rparr>,
      \<lparr>d_name = Str ''b.css'', d_size = Finite 512\<rparr>,
      \<lparr>d_name = Str ''c.png'', d_size = Finite 2048\<rparr>]"

section \<open>Basic facts\<close>

lemma bnd_Inl [simp]: "bnd (Inl e) f = Inl e"
  by (simp add: bnd_def)

lemma bnd_Inr [simp]: "bnd (Inr a) f = f a"
  by (simp add: bnd_def)

lemma bnd_eq_Inr: "bnd m f = Inr b \<longleftrightarrow> (\<exists>a. m = Inr a \<and> f a = Inr b)"
  by (cases m) simp_all

lemma fld_Obj [simp]:
  "fld (Obj kvs) k f = f (case map_of kvs k of Some x \<Rightarrow> x | None \<Rightarrow> Undefined)"
  by (simp add: fld_def get_def)

lemma scale_NaN [simp]: "scale NaN i = (NaN, i)"
  by (simp add: scale.simps)

lemma decimal_digit: "n < 10 \<Longrightarrow> decimal n = [digit_char n]"
  by (simp add: decimal.simps)

lemma decimal_0 [simp]: "decimal 0 = ''0''"
  by (simp add: decimal.simps digit_char_def)

lemma to_string_primitive: "primitive v \<Longrightarrow> \<exists>s. to_string v = Inr s"
  by (cases v) simp_all

section \<open>Formatter: escape\<close>

lemma replace_char_entity_form: "replace_char c = entity_form c"
  by (simp add: replace_char_def entity_form_def entities_def)

lemma entity_encoded_replace: "entity_encoded (concat (map replace_char s))"
proof (induction s)
  case Nil
  show ?case by simp
next
  case (Cons c s)
  then show ?case
    by (simp add: replace_char_def entities_def)
qed

lemma esc_of_string:
  "to_string v = Inr s \<Longrightarrow> v \<noteq> Null \<Longrightarrow> v \<noteq> Undefined \<Longrightarrow>
   esc v = Inr (concat (map replace_char s))"
  by (simp add: esc_def nullish_def)

lemma esc_nullish: "esc Null = Inr []" "esc Undefined = Inr []"
  by (simp_all add: esc_def nullish_def)

lemma esc_Inr_encoded: "esc v = Inr out \<Longrightarrow> entity_encoded out"
  by (auto simp: esc_def bnd_eq_Inr entity_encoded_replace)

section \<open>Claims on the Formatter\<close>

lemma to_string_converts:
  fixes v :: jsval and xs :: "jsval list"
  shows "if converts v then \<exists>t. to_string v = Inr t else to_string v = Inl TypeError"
    and "if converts_all xs then \<exists>t. join_elems xs = Inr t else join_elems xs = Inl TypeError"
proof (induction v and xs rule: to_string_join_elems.induct)
  case (7 kvs)
  then show ?case
    by (cases "map_of kvs ''toString''") simp_all
next
  case (9 x)
  then show ?case
    by (cases x) (simp_all split: if_splits)
next
  case (10 x y ys)
  then show ?case
    by (cases x) (auto split: if_splits)
qed simp_all

text \<open>
  C3. For every value that converts to a string (a primitive value, an object with no
  property \<^verbatim>\<open>toString\<close> of its own, an array of values that convert), \<open>esc\<close> returns the
  empty string if the value is \<^verbatim>\<open>null\<close> or \<^verbatim>\<open>undefined\<close>, and otherwise the converted
  value with each of \<^verbatim>\<open>& < > " '\<close> replaced by its entity; the result is entity-encoded:
  none of the five characters occurs in it outside an entity. On every other value
  \<open>esc\<close> throws.
\<close>

theorem esc_replaces_specials:
  "if converts v
   then \<exists>t out. to_string v = Inr t \<and> esc v = Inr out \<and> entity_encoded out \<and>
          out = (if v = Null \<or> v = Undefined then [] else concat (map entity_form t))
   else esc v = Inl TypeError"
proof (cases "converts v")
  case True
  then obtain t where t: "to_string v = Inr t"
    using to_string_converts(1) [of v] by auto
  have enc: "entity_encoded out" if "esc v = Inr out" for out
    using that by (rule esc_Inr_encoded)
  show ?thesis
  proof (cases "v = Null \<or> v = Undefined")
    case nul: True
    then have "esc v = Inr []"
      using esc_nullish by auto
    with t nul True show ?thesis by auto
  next
    case False
    then have "esc v = Inr (concat (map replace_char t))"
      using t by (simp add: esc_of_string)
    moreover have "map replace_char t = map entity_form t"
      by (simp add: replace_char_entity_form)
    ultimately show ?thesis
      using t False True enc by auto
  qed
next
  case False
  then have "to_string v = Inl TypeError"
    using to_string_converts(1) [of v] by simp
  moreover have "nullish v (Str []) = v"
    using False by (cases v) (simp_all add: nullish_def)
  ultimately show ?thesis
    using False by (simp add: esc_def)
qed

theorem esc_replaces_specials_witness:
  \<open>esc (Str ''<a href="x">Tom & Jerry</a>'')
     = Inr ''&lt;a href=&quot;x&quot;&gt;Tom &amp; Jerry&lt;/a&gt;'' \<and>
   esc (Arr [Str ''a<b'', Null, Bool True]) = Inr ''a&lt;b,,true'' \<and>
   esc Null = Inr [] \<and>
   esc (Arr [Obj [(''toString'', Num (Finite 1))]]) = Inl TypeError\<close>
  using esc_replaces_specials [of \<open>Str ''<a href="x">Tom & Jerry</a>''\<close>]
    esc_replaces_specials [of \<open>Arr [Str ''a<b'', Null, Bool True]\<close>]
    esc_replaces_specials [of Null]
    esc_replaces_specials [of \<open>Arr [Obj [(''toString'', Num (Finite 1))]]\<close>]
  by (simp add: entity_form_def)

text \<open>
  An object that has a property named \<^verbatim>\<open>toString\<close> does not convert to a string, nor
  does an array that holds such an object, and \<open>esc\<close> throws on them.
\<close>

theorem esc_throws_counterexample:
  "esc (Obj [(''toString'', Num (Finite 1))]) = Inl TypeError \<and>
   esc (Arr [Str ''a'', Obj [(''toString'', Num (Finite 1))]]) = Inl TypeError"
  by (simp add: esc_def nullish_def)

text \<open>
  C10. For every non-empty string that does not parse as a number, \<open>bytes\<close> returns
  \<^verbatim>\<open>0 B\<close>: the string converts to not-a-number, the scaling loop leaves it at the base
  unit, and the integer part of not-a-number is 0.
\<close>

theorem bytes_of_non_numeric_string:
  assumes "s \<noteq> []" and "str_to_num s = NaN"
  shows "bytes (Str s) = Inr ''0 B'' \<and> to_number (Str s) = Inr NaN \<and>
         scale NaN 0 = (NaN, 0) \<and> to_int32 NaN = 0"
  using assms
  by (simp add: bytes_def to_number_def to_int32_def show_int_def units_def)

theorem bytes_of_non_numeric_string_witness:
  "''abc'' \<noteq> [] \<and> str_to_num ''abc'' = NaN \<and> bytes (Str ''abc'') = Inr ''0 B''"
proof -
  have h: "str_to_num ''abc'' = NaN"
    by code_simp
  show ?thesis
    using h bytes_of_non_numeric_string [of "''abc''"] by simp
qed

text \<open>
  C9. For every string, and for every falsy value (\<^verbatim>\<open>undefined\<close>, \<^verbatim>\<open>null\<close>,
  \<^verbatim>\<open>false\<close>, \<^verbatim>\<open>0\<close>, not-a-number, the empty string), \<open>short\<close> does not throw: if the
  converted value parses as a URL, the result is the host name followed by the path
  name, cut to 60 characters; if not, it is the text of the input cut to 60 characters.
\<close>

theorem short_of_string_or_falsy:
  assumes "(\<exists>r. v = Str r) \<or> \<not> truthy v"
  shows "\<exists>s. to_string v = Inr s \<and>
           short url v =
             Inr (Str (case url s of
                         Some (hostname, pathname) \<Rightarrow> take 60 (hostname @ pathname)
                       | None \<Rightarrow> take 60 (raw_text v)))"
proof (cases v)
  case (Num n)
  with assms show ?thesis
    by (cases n) (auto simp: short_def or_else_def split: option.splits)
qed (use assms in \<open>auto simp: short_def or_else_def split: option.splits\<close>)

theorem short_of_string_or_falsy_witness:
  "short sample_url (Str ''https://cdn.example.com/lib/app.js'') = Inr (Str ''cdn.example.com/lib/app.js'')
   \<and> short sample_url (Str ''not a url'') = Inr (Str ''not a url'')
   \<and> short sample_url Null = Inr (Str [])"
  using short_of_string_or_falsy [of "Str ''https://cdn.example.com/lib/app.js''" sample_url]
    short_of_string_or_falsy [of "Str ''not a url''" sample_url]
    short_of_string_or_falsy [of Null sample_url]
  by (simp add: sample_url_def)

text \<open>
  A number that is no URL reaches the handler, where \<^verbatim>\<open>(u||'')\<close> is the number itself
  and has no \<^verbatim>\<open>slice\<close>: the call throws.
\<close>

lemma num_to_string_5: "num_to_string (Finite 5) = ''5''"
  by code_simp

theorem short_throws_counterexample:
  "short sample_url (Num (Finite 5)) = Inl TypeError"
  by (simp add: short_def or_else_def sample_url_def num_to_string_5 del: num_to_string.simps)

section \<open>Claims on the Upload Controller\<close>









section \<open>Rendering a well-formed document never throws\<close>

lemma returns_Inr [simp]: "returns (Inr a)"
  by (simp add: returns_def)

lemma returns_Inl [simp]: "\<not> returns (Inl e)"
  by (simp add: returns_def)

lemma returns_iff: "returns m \<longleftrightarrow> (\<exists>a. m = Inr a)"
  by (cases m) simp_all

lemma returns_mapM_Cons:
  "returns (mapM f (x # xs)) \<longleftrightarrow> returns (f x) \<and> returns (mapM f xs)"
  by (cases "f x"; cases "mapM f xs") simp_all

lemma returns_mapM: "returns (mapM f xs) \<longleftrightarrow> list_all (\<lambda>x. returns (f x)) xs"
  by (induction xs) (simp_all add: returns_mapM_Cons del: mapM.simps(2))

lemma returns_template [simp]: "returns (template ps) \<longleftrightarrow> list_all returns ps"
proof -
  have "returns (template ps) = returns (mapM id ps)"
    by (cases "mapM id ps") (simp_all add: template_def)
  then show ?thesis
    by (simp add: returns_mapM)
qed

lemma primitive_or_else: "primitive a \<Longrightarrow> primitive b \<Longrightarrow> primitive (or_else a b)"
  by (simp add: or_else_def)

lemma returns_esc: "primitive v \<Longrightarrow> returns (esc v)"
proof -
  assume "primitive v"
  then have "primitive (nullish v (Str []))"
    by (simp add: nullish_def)
  then obtain s where "to_string (nullish v (Str [])) = Inr s"
    using to_string_primitive by blast
  then show ?thesis
    by (simp add: esc_def)
qed

lemma returns_to_number: "primitive v \<Longrightarrow> returns (to_number v)"
  by (cases v) (simp_all add: to_number_def)

lemma returnsE: "returns m \<Longrightarrow> (\<And>a. m = Inr a \<Longrightarrow> thesis) \<Longrightarrow> thesis"
  by (cases m) simp_all

lemma returns_bytes: "primitive v \<Longrightarrow> returns (bytes v)"
proof -
  assume "primitive v"
  then have "returns (to_number v)"
    by (rule returns_to_number)
  then obtain n where n: "to_number v = Inr n"
    by (rule returnsE)
  show ?thesis
    by (cases "scale n 0") (simp add: bytes_def n)
qed

lemma fld_field: "is_object v \<Longrightarrow> fld v k f = f (field v k)"
  by (cases v) (simp_all add: is_object_def field_def)

lemma get_field: "is_object v \<Longrightarrow> get v k = Inr (field v k)"
  by (cases v) (simp_all add: is_object_def field_def get_def)

lemma mapM_map: "(\<And>x. x \<in> set xs \<Longrightarrow> f x = Inr (g x)) \<Longrightarrow> mapM f xs = Inr (map g xs)"
  by (induction xs) simp_all

section \<open>The markup of a well-formed document\<close>

lemma to_string_string_of: "primitive v \<Longrightarrow> to_string v = Inr (string_of v)"
  using to_string_primitive [of v] by (auto simp: string_of_def)

lemma esc_escaped: "primitive v \<Longrightarrow> esc v = Inr (escaped v)"
proof (cases "missing v")
  case True
  then show ?thesis
    by (cases v) (simp_all add: missing_def escaped_def esc_nullish)
next
  case False
  assume "primitive v"
  then have t: "to_string v = Inr (string_of v)"
    by (rule to_string_string_of)
  have "v \<noteq> Null" "v \<noteq> Undefined"
    using False by (auto simp: missing_def)
  then have "esc v = Inr (concat (map replace_char (string_of v)))"
    using t by (simp add: esc_of_string)
  moreover have "map replace_char (string_of v) = map entity_form (string_of v)"
    by (simp add: replace_char_entity_form)
  ultimately show ?thesis
    using False by (simp add: escaped_def)
qed

lemma bytes_formatted: "primitive v \<Longrightarrow> bytes v = Inr (formatted v)"
proof -
  assume "primitive v"
  then obtain s where "bytes v = Inr s"
    using returns_bytes by (blast elim: returnsE)
  then show ?thesis
    by (simp add: formatted_def)
qed

lemma template_Inr [simp]: "template (map Inr ss) = Inr (concat ss)"
proof -
  have "mapM id (map Inr ss) = Inr ss"
    by (induction ss) simp_all
  then show ?thesis
    by (simp add: template_def)
qed

lemma js_map_entries:
  assumes "sequence p v" and "\<And>x. p x \<Longrightarrow> f x = Inr (g x)"
  shows "js_map (or_else v (Arr [])) f = Inr (map g (entries v))"
proof (cases v)
  case (Arr xs)
  then have "mapM f xs = Inr (map g xs)"
    using assms by (intro mapM_map) (auto simp: sequence_def list_all_iff)
  then show ?thesis
    using Arr by (simp add: or_else_def js_map_def entries_def)
qed (use assms in \<open>simp_all add: sequence_def or_else_def js_map_def entries_def\<close>)

lemma archive_row_line:
  assumes "scalars [''name'', ''is_dir'', ''size'', ''compressed''] e"
  shows "archive_row e = Inr (archive_line e)"
proof -
  have obj: "is_object e"
    and p: "primitive (field e ''name'')" "primitive (field e ''size'')"
      "primitive (field e ''compressed'')"
    using assms by (simp_all add: scalars_def)
  have \<open>archive_row e = template (map Inr
          [''\<newline>    <tr><td>'',
           if truthy (field e ''is_dir'') then folder_glyph else file_glyph,
           ''</td>\<newline>        <td>'',
           escaped (field e ''name''),
           ''</td>\<newline>        <td class="ta-r">'',
           formatted (field e ''size''),
           ''</td>\<newline>        <td class="ta-r">'',
           formatted (field e ''compressed''),
           ''</td></tr>''])\<close>
    by (simp add: archive_row_def fld_field [OF obj] esc_escaped [OF p(1)]
        bytes_formatted [OF p(2)] bytes_formatted [OF p(3)])
  then show ?thesis
    by (simp only: template_Inr) (simp add: archive_line_def folder_glyph_def file_glyph_def)
qed

lemma archive_html_markup:
  assumes "analysis_document d"
  shows "archive_html d = Inr (archive_markup d)"
proof -
  have obj: "is_object d"
    and seq: "sequence (scalars [''name'', ''is_dir'', ''size'', ''compressed'']) (field d ''archive'')"
    using assms by (simp_all add: analysis_document_def)
  have "js_map (or_else (field d ''archive'') (Arr [])) archive_row
          = Inr (map archive_line (entries (field d ''archive'')))"
    using seq by (rule js_map_entries) (rule archive_row_line)
  then show ?thesis
    by (simp add: archive_html_def fld_field [OF obj] template_def archive_markup_def)
qed

lemma thumb_fig_figure:
  assumes "primitive run" and "scalars [''t_sec'', ''png_b64''] t"
  shows "thumb_fig run t = Inr (figure run t)"
proof -
  have obj: "is_object t" and p: "primitive (field t ''t_sec'')" "primitive (field t ''png_b64'')"
    using assms(2) by (simp_all add: scalars_def)
  have \<open>thumb_fig run t = template (map Inr
          [''<figure style="margin:0">\<newline>        <a href="/runs/'',
           string_of run,
           ''/backup.png?t='',
           string_of (field t ''t_sec''),
           ''" download="backup_'',
           string_of (field t ''t_sec''),
           ''.png" title="Download as Backup">\<newline>          <img src="'',
           string_of (field t ''png_b64''),
           ''" alt="'',
           string_of (field t ''t_sec''),
           ''s" style="height:84px;border-radius:6px;border:1px solid #2a2a30">\<newline>        </a>\<newline>        <figcaption class="meta" style="text-align:center">'',
           string_of (field t ''t_sec''),
           '' sec</figcaption>\<newline>      </figure>''])\<close>
    by (simp add: thumb_fig_def fld_field [OF obj] to_string_string_of [OF assms(1)]
        to_string_string_of [OF p(1)] to_string_string_of [OF p(2)])
  then show ?thesis
    by (simp only: template_Inr) (simp add: figure_def)
qed

lemma thumbRow_markup:
  assumes "analysis_document d"
  shows "thumbRow (field d ''run_id'') d
           = Inr (thumbnails_markup (field d ''run_id'') (entries (field d ''thumbnails'')))"
proof -
  let ?x = "field d ''thumbnails''"
  let ?run = "field d ''run_id''"
  have seq: "sequence (scalars [''t_sec'', ''png_b64'']) ?x" and obj: "is_object d"
    and run: "primitive ?run"
    using assms by (auto simp: analysis_document_def)
  have m: "js_map (or_else ?x (Arr [])) (thumb_fig ?run) = Inr (map (figure ?run) (entries ?x))"
    using seq by (rule js_map_entries) (rule thumb_fig_figure [OF run])
  have len: "get (or_else ?x (Arr [])) ''length'' = Inr (Num (Finite (of_nat (length (entries ?x)))))"
    using seq by (cases ?x) (auto simp: sequence_def or_else_def get_def entries_def)
  show ?thesis
  proof (cases "entries ?x = []")
    case True
    then show ?thesis
      by (simp add: thumbRow_def fld_def get_field [OF obj] len thumbnails_markup_def)
  next
    case False
    then have "truthy (Num (Finite (of_nat (length (entries ?x)))))"
      by simp
    then show ?thesis
      using False
      by (simp add: thumbRow_def fld_def get_field [OF obj] len m template_def
          thumbnails_markup_def del: truthy.simps)
  qed
qed

lemma test_row_line:
  assumes "scalars [''category'', ''label'', ''value'', ''status'', ''help''] r"
  shows "test_row r = Inr (check_line r)"
proof -
  have obj: "is_object r"
    and p: "primitive (field r ''category'')" "primitive (field r ''label'')"
      "primitive (field r ''value'')" "primitive (field r ''status'')" "primitive (field r ''help'')"
    using assms by (simp_all add: scalars_def)
  have c: "primitive (or_else (field r ''category'') (Str ''-''))"
    using p(1) by (simp add: primitive_or_else)
  have \<open>test_row r = template (map Inr
          [''\<newline>    <tr>\<newline>      <td>'',
           escaped (or_else (field r ''category'') (Str ''-'')),
           ''</td>\<newline>      <td>'',
           escaped (field r ''label''),
           ''</td>\<newline>      <td class="ta-r"><span class="badge '',
           string_of (field r ''status''),
           ''">'',
           escaped (field r ''value''),
           ''</span>\<newline>        '',
           if truthy (field r ''help'')
           then ''<div class="help">'' @ escaped (field r ''help'') @ ''</div>'' else [],
           ''</td>\<newline>    </tr>''])\<close>
    by (simp add: test_row_def fld_field [OF obj] esc_escaped [OF c] esc_escaped [OF p(2)]
        esc_escaped [OF p(3)] esc_escaped [OF p(5)] to_string_string_of [OF p(4)] template_def)
  then show ?thesis
    by (simp only: template_Inr) (simp add: check_line_def)
qed

lemma matrix_html_markup:
  assumes "analysis_document d"
  shows "matrix_html (field d ''run_id'') d = Inr (checks_markup d)"
proof -
  have obj: "is_object d"
    and seq: "sequence (scalars [''category'', ''label'', ''value'', ''status'', ''help''])
        (field d ''results'')"
    using assms by (simp_all add: analysis_document_def)
  have "js_map (or_else (field d ''results'') (Arr [])) test_row
          = Inr (map check_line (entries (field d ''results'')))"
    using seq by (rule js_map_entries) (rule test_row_line)
  then show ?thesis
    by (simp add: matrix_html_def thumbRow_markup [OF assms] fld_field [OF obj] template_def
        checks_markup_def)
qed

lemma previewBtn_link: "primitive run \<Longrightarrow> previewBtn run = Inr (preview_link run)"
  by (simp add: previewBtn_def to_string_string_of template_def preview_link_def)

lemma map_of_filter_key:
  "map_of (filter (\<lambda>(k', x). k' \<noteq> p) kvs) k = (if k = p then None else map_of kvs k)"
  by (induction kvs) auto

lemma metadata_read:
  assumes "missing (field d ''metadata'') \<or> is_object (field d ''metadata'')"
    and "k \<noteq> ''__proto__''"
  shows "field (object_assign (or_else (field d ''metadata'') (Obj []))) k = metadata_field d k"
proof (cases "field d ''metadata''")
  case (Obj kvs)
  show ?thesis
  proof (cases "map_of kvs ''__proto__''")
    case None
    then show ?thesis
      using Obj assms(2)
      by (simp add: or_else_def object_assign_def field_def metadata_field_def map_of_filter_key
          split: option.splits)
  next
    case (Some p)
    then show ?thesis
      using Obj assms(2)
      by (cases p)
        (simp_all add: or_else_def object_assign_def field_def metadata_field_def
          map_of_filter_key map_add_def split: option.splits)
  qed
qed (use assms in \<open>simp_all add: missing_def is_object_def or_else_def object_assign_def field_def
       metadata_field_def\<close>)

lemma metadata_field_primitive:
  assumes "analysis_document d" and "inherits_scalars d"
    and "k \<in> set [''scan_type'', ''api_version'', ''unix_timestamp'', ''scan_duration'',
              ''creative_type'', ''original_name'', ''device'', ''language'', ''user_agent'']"
  shows "primitive (metadata_field d k)"
proof (cases "field d ''metadata''")
  case (Obj kvs)
  then have sc: "scalars [''scan_type'', ''api_version'', ''unix_timestamp'', ''scan_duration'',
              ''creative_type'', ''original_name'', ''device'', ''language'', ''user_agent'']
              (Obj kvs)"
    using assms(1) by (simp add: analysis_document_def missing_def)
  then have own: "primitive (field (Obj kvs) k)"
    using assms(3) by (auto simp: scalars_def list_all_iff)
  show ?thesis
  proof (cases "map_of kvs k")
    case (Some x)
    then show ?thesis
      using own Obj by (simp add: metadata_field_def field_def)
  next
    case None
    have "primitive (field (field (Obj kvs) ''__proto__'') k)"
    proof (cases "field (Obj kvs) ''__proto__''")
      case inh: (Obj ps)
      then have "scalars [''scan_type'', ''api_version'', ''unix_timestamp'', ''scan_duration'',
              ''creative_type'', ''original_name'', ''device'', ''language'', ''user_agent'']
              (Obj ps)"
        using assms(2) Obj by (simp add: inherits_scalars_def)
      then show ?thesis
        using assms(3) inh by (auto simp: scalars_def list_all_iff)
    qed (simp_all add: field_def)
    then show ?thesis
      using None Obj by (simp add: metadata_field_def)
  qed
qed (simp_all add: metadata_field_def)

lemma meta_html_markup:
  assumes "analysis_document d" and "inherits_scalars d"
  shows "meta_html (preview_link (field d ''run_id''))
           (object_assign (or_else (field d ''metadata'') (Obj []))) name
         = Inr (meta_markup d name)"
proof -
  let ?md = "object_assign (or_else (field d ''metadata'') (Obj []))"
  have m: "missing (field d ''metadata'') \<or> is_object (field d ''metadata'')"
    using assms(1) by (auto simp: analysis_document_def scalars_def split: if_splits)
  have obj: "is_object ?md"
    by (cases "or_else (field d ''metadata'') (Obj [])") (simp_all add: object_assign_def is_object_def)
  have r: "field ?md k = metadata_field d k" if "k \<noteq> ''__proto__''" for k
    using m that by (rule metadata_read)
  have p: "primitive (metadata_field d k)"
    if "k \<in> set [''scan_type'', ''api_version'', ''unix_timestamp'', ''scan_duration'',
              ''creative_type'', ''original_name'', ''device'', ''language'', ''user_agent'']" for k
    using assms that by (rule metadata_field_primitive)
  have e: "esc (or_else (metadata_field d k) (Str s)) = Inr (escaped (or_else (metadata_field d k) (Str s)))"
    if "k \<in> set [''scan_type'', ''api_version'', ''unix_timestamp'', ''scan_duration'',
              ''creative_type'', ''original_name'', ''device'', ''language'', ''user_agent'']" for k s
    using p [OF that] by (intro esc_escaped primitive_or_else) simp_all
  have t: "to_string (or_else (metadata_field d k) (Str [])) = Inr (string_of (or_else (metadata_field d k) (Str [])))"
    if "k \<in> set [''scan_type'', ''api_version'', ''unix_timestamp'', ''scan_duration'',
              ''creative_type'', ''original_name'', ''device'', ''language'', ''user_agent'']" for k
    using p [OF that] by (intro to_string_string_of primitive_or_else) simp_all
  have o: "esc (or_else (or_else (metadata_field d ''original_name'') (Str name)) (Str []))
             = Inr (escaped (or_else (or_else (metadata_field d ''original_name'') (Str name)) (Str [])))"
    using p [of "''original_name''"] by (intro esc_escaped primitive_or_else) simp_all
  have s: "esc (Str x) = Inr (escaped (Str x))" for x
    by (rule esc_escaped) simp
  have \<open>meta_html (preview_link (field d ''run_id'')) ?md name = template (map Inr
          [''\<newline>    <h2>Metadata</h2>\<newline>    '',
           preview_link (field d ''run_id''),
           ''\<newline>    <div class="kv" style="margin-top:12px">\<newline>      <div>Scan Type</div><div>'',
           escaped (or_else (metadata_field d ''scan_type'') (Str ''Web scan'')),
           ''</div>\<newline>      <div>API Version</div><div>'',
           escaped (or_else (metadata_field d ''api_version'') (Str ''v1'')),
           ''</div>\<newline>      <div>Unix Timestamp</div><div>'',
           escaped (Str (string_of (or_else (metadata_field d ''unix_timestamp'') (Str [])))),
           ''</div>\<newline>      <div>Scan Duration</div><div>'',
           escaped (Str (string_of (or_else (metadata_field d ''scan_duration'') (Str [])))),
           '' seconds</div>\<newline>      <div>Creative Type</div><div>'',
           escaped (or_else (metadata_field d ''creative_type'') (Str ''HTML5 Zip'')),
           ''</div>\<newline>      <div>Original Name</div><div>'',
           escaped (or_else (or_else (metadata_field d ''original_name'') (Str name)) (Str [])),
           ''</div>\<newline>      <div>Device</div><div>'',
           escaped (or_else (metadata_field d ''device'') (Str ''Desktop'')),
           ''</div>\<newline>      <div>Language</div><div>'',
           escaped (or_else (metadata_field d ''language'') (Str ''en-US'')),
           ''</div>\<newline>      <div>User-Agent</div><div class="list">'',
           escaped (or_else (metadata_field d ''user_agent'') (Str [])),
           ''</div>\<newline>    </div>''])\<close>
    by (simp add: meta_html_def fld_field [OF obj] r e t o s)
  then show ?thesis
    by (simp only: template_Inr) (simp add: meta_markup_def)
qed

lemma renderAll_markup:
  assumes "analysis_document d" and "inherits_scalars d"
  shows "renderAll url d name pg
           = render_network url d
               (pg\<lparr>meta := shown (meta_markup d name), archive := shown (archive_markup d),
                   matrix := shown (checks_markup d)\<rparr>)"
proof -
  have obj: "is_object d" and run: "primitive (field d ''run_id'')"
    using assms(1) by (simp_all add: analysis_document_def)
  show ?thesis
    by (simp add: renderAll_def get_field [OF obj] fld_field [OF obj] previewBtn_link [OF run]
        meta_html_markup [OF assms] archive_html_markup [OF assms(1)]
        matrix_html_markup [OF assms(1)])
qed

subsection \<open>A document without network requests\<close>

lemma net_of_document:
  assumes "analysis_document d"
  shows "net_of d = Inr (Arr (requests d))"
proof -
  let ?r = "field d ''runtime''"
  have obj: "is_object d"
    using assms by (simp add: analysis_document_def)
  show ?thesis
  proof (cases "missing ?r")
    case True
    then have "\<not> truthy ?r" "field ?r ''network_requests'' = Undefined"
      by (cases ?r; simp add: missing_def field_def)+
    then show ?thesis
      by (simp add: net_of_def fld_field [OF obj] requests_def)
  next
    case False
    with assms have r: "is_object ?r"
      and seq: "sequence request (field ?r ''network_requests'')"
      by (simp_all add: analysis_document_def)
    have t: "truthy ?r"
      using r by (cases ?r) (simp_all add: is_object_def)
    show ?thesis
      using seq
      by (cases "field ?r ''network_requests''")
        (simp_all add: net_of_def fld_field [OF obj] fld_field [OF r] get_field [OF r] t
          requests_def sequence_def)
  qed
qed

lemma render_network_none:
  assumes "analysis_document d" and "requests d = []"
  shows "render_network url d pg = (None, pg)"
  using assms(2) by (simp add: render_network_def net_of_document [OF assms(1)] fld_def get_def)

section \<open>The render cycle\<close>

text \<open>
  C8. A render cycle keeps no state. Rendering a document a second time, on the page the
  first rendering left, ends the same way with the same page. What an upload leaves in
  the four containers and the chart depends on the response and the file name only,
  not on the page before it: two identical responses in succession give identical
  markup. The document is a value that the renderers read; they return nothing but the
  page.
\<close>

lemma render_network_sections:
  assumes "network pg' = network pg" and "netChart pg' = netChart pg"
  shows "fst (render_network url d pg') = fst (render_network url d pg) \<and>
         network (snd (render_network url d pg')) = network (snd (render_network url d pg)) \<and>
         netChart (snd (render_network url d pg')) = netChart (snd (render_network url d pg)) \<and>
         meta (snd (render_network url d pg')) = meta pg' \<and>
         archive (snd (render_network url d pg')) = archive pg' \<and>
         matrix (snd (render_network url d pg')) = matrix pg' \<and>
         alerts (snd (render_network url d pg')) = alerts pg'"
  using assms
  by (auto simp: render_network_def drawBars_def set_innerHTML_def
      split: sum.splits prod.splits)

lemma render_network_twice:
  "render_network url d (snd (render_network url d pg)) = render_network url d pg"
  by (auto simp: render_network_def drawBars_def set_innerHTML_def
      split: sum.splits prod.splits)

lemma render_network_update:
  "render_network url d (snd (render_network url d pg)\<lparr>meta := m, archive := a, matrix := c\<rparr>)
     = render_network url d (pg\<lparr>meta := m, archive := a, matrix := c\<rparr>)"
  by (auto simp: render_network_def drawBars_def set_innerHTML_def
      split: sum.splits prod.splits)

lemma renderAll_twice:
  "renderAll url d name (snd (renderAll url d name pg)) = renderAll url d name pg"
  by (auto simp: renderAll_def render_network_update split: sum.splits)

lemma renderAll_sections:
  assumes "sections pg' = sections pg"
  shows "fst (renderAll url d name pg') = fst (renderAll url d name pg) \<and>
         sections (snd (renderAll url d name pg')) = sections (snd (renderAll url d name pg))"
proof -
  have eq: "meta pg' = meta pg" "archive pg' = archive pg" "matrix pg' = matrix pg"
    "network pg' = network pg" "netChart pg' = netChart pg"
    using assms by (simp_all add: sections_def)
  have n: "fst (render_network url d (pg'\<lparr>meta := m, archive := a, matrix := c\<rparr>))
             = fst (render_network url d (pg\<lparr>meta := m, archive := a, matrix := c\<rparr>)) \<and>
           sections (snd (render_network url d (pg'\<lparr>meta := m, archive := a, matrix := c\<rparr>)))
             = sections (snd (render_network url d (pg\<lparr>meta := m, archive := a, matrix := c\<rparr>)))"
    for m a c
    using render_network_sections
        [of "pg'\<lparr>meta := m, archive := a, matrix := c\<rparr>"
            "pg\<lparr>meta := m, archive := a, matrix := c\<rparr>" url d]
      render_network_sections
        [of "pg\<lparr>meta := m, archive := a, matrix := c\<rparr>"
            "pg\<lparr>meta := m, archive := a, matrix := c\<rparr>" url d]
    by (simp add: eq sections_def)
  show ?thesis
    using n by (auto simp: renderAll_def sections_def eq split: sum.splits)
qed

lemma sections_cleared: "sections (cleared pg') = sections (cleared pg)"
  by (simp add: sections_def cleared_def)

lemma upload_sections:
  "fst (upload url r name pg') = fst (upload url r name pg) \<and>
   sections (snd (upload url r name pg')) = sections (snd (upload url r name pg))"
proof -
  have a: "fst (alert_error d (cleared pg')) = fst (alert_error d (cleared pg)) \<and>
           sections (snd (alert_error d (cleared pg'))) = sections (snd (alert_error d (cleared pg)))"
    for d
    by (simp add: alert_error_def sections_def cleared_def split: sum.splits)
  show ?thesis
    using a renderAll_sections [OF sections_cleared, of url _ name pg' pg]
    by (auto simp: upload_def sections_cleared split: sum.splits bool.splits)
qed

theorem render_cycle_stateless:
  "renderAll url d name (snd (renderAll url d name pg)) = renderAll url d name pg \<and>
   fst (upload url r name (snd (upload url r name pg))) = fst (upload url r name pg) \<and>
   sections (snd (upload url r name (snd (upload url r name pg))))
     = sections (snd (upload url r name pg)) \<and>
   fst (upload url r name pg') = fst (upload url r name pg) \<and>
   sections (snd (upload url r name pg')) = sections (snd (upload url r name pg))"
  using renderAll_twice [of url d name pg] upload_sections [of url r name pg' pg]
    upload_sections [of url r name "snd (upload url r name pg)" pg]
  by simp

theorem render_cycle_stateless_witness:
  "sections (snd (upload sample_url (Inr \<lparr>ok = True, json = Inr sample_doc\<rparr>) ''ad.zip''
       (snd (upload sample_url (Inr \<lparr>ok = True, json = Inr sample_doc\<rparr>) ''ad.zip'' stale_page))))
   = sections (snd (upload sample_url (Inr \<lparr>ok = True, json = Inr sample_doc\<rparr>) ''ad.zip'' stale_page))"
  using render_cycle_stateless
      [of sample_url sample_doc "''ad.zip''" stale_page "Inr \<lparr>ok = True, json = Inr sample_doc\<rparr>"
          stale_page]
  by simp

section \<open>Escaping of document values\<close>

text \<open>
  C1. Not every value of the document goes through \<open>esc\<close>: the \<^verbatim>\<open>status\<close> of a check
  is written into the \<^verbatim>\<open>class\<close> attribute of its badge as it is. A status that closes
  the attribute and the tag puts its own markup into the Checks container, where
  \<open>esc\<close> would have given entities.
\<close>

theorem status_rendered_unescaped:
  \<open>innerHTML (matrix (snd (renderAll sample_url hostile_doc ''ad.zip'' stale_page)))
     = ''<h2>Checks</h2>\<newline>    <table class="table"><thead><tr><th>Category</th><th>Test</th><th class="ta-r">Result</th></tr></thead>\<newline>    <tbody>\<newline>    <tr>\<newline>      <td>-</td>\<newline>      <td>SSL</td>\<newline>      <td class="ta-r"><span class="badge ''
       @ ''"><script>alert(1)</script>''
       @ ''">Pass</span>\<newline>        </td>\<newline>    </tr></tbody></table>'' \<and>
   esc (Str ''"><script>alert(1)</script>'')
     = Inr ''&quot;&gt;&lt;script&gt;alert(1)&lt;/script&gt;''\<close>
  by code_simp

section \<open>Rounding to a double\<close>

lemma bitlen_nat_bounds: "0 < n \<Longrightarrow> 2 ^ bitlen_nat n \<le> 2 * n \<and> n < 2 ^ bitlen_nat n"
proof (induction n rule: bitlen_nat.induct)
  case (1 n)
  show ?case
  proof (cases "n div 2 = 0")
    case True
    with "1.prems" have "n = 1"
      by (auto simp: div_eq_0_iff)
    moreover have "bitlen_nat (Suc 0) = Suc 0"
      by (simp add: bitlen_nat.simps [of "Suc 0"] bitlen_nat.simps [of 0])
    ultimately show ?thesis
      by simp
  next
    case False
    then have ih: "2 ^ bitlen_nat (n div 2) \<le> 2 * (n div 2)" "n div 2 < 2 ^ bitlen_nat (n div 2)"
      using "1.IH" "1.prems" by auto
    have b: "bitlen_nat n = Suc (bitlen_nat (n div 2))"
      using "1.prems" by (simp add: bitlen_nat.simps [of n])
    have "2 * (n div 2) \<le> n" "n < 2 * (n div 2 + 1)"
      by presburger+
    then show ?thesis
      using ih by (simp add: b)
  qed
qed

lemma floor_log2_bounds:
  assumes "0 < a"
  shows "2 powi floor_log2 a \<le> a \<and> a < 2 powi (floor_log2 a + 1)"
proof (cases "1 \<le> a")
  case True
  define n where "n = nat \<lfloor>a\<rfloor>"
  define b where "b = bitlen_nat n"
  have n: "0 < n" "of_nat n \<le> a" "a < of_nat n + 1"
    using True by (simp_all add: n_def) linarith+
  have bb: "2 ^ b \<le> 2 * n" "n < 2 ^ b"
    using bitlen_nat_bounds [OF n(1)] by (simp_all add: b_def)
  then have b1: "1 \<le> b"
    using n(1) by (cases b) auto
  have k: "floor_log2 a = int b - 1"
    using True by (simp add: floor_log2_def n_def b_def)
  have p1: "(2::rat) powi (int b - 1) = 2 ^ (b - 1)"
    using b1 by (simp add: power_int_def nat_diff_distrib')
  have p2: "(2::rat) powi (int b - 1 + 1) = 2 ^ b"
    by simp
  have "2 * 2 ^ (b - 1) = (2::nat) ^ b"
    using b1 by (cases b) simp_all
  then have "2 ^ (b - 1) \<le> n"
    using bb(1) by simp
  then have "(2::rat) ^ (b - 1) \<le> of_nat n"
    by (metis of_nat_le_iff of_nat_numeral of_nat_power)
  moreover have "of_nat n + 1 \<le> (2::rat) ^ b"
  proof -
    have "n + 1 \<le> 2 ^ b"
      using bb(2) by simp
    then have "(of_nat (n + 1) :: rat) \<le> of_nat (2 ^ b)"
      by (simp only: of_nat_le_iff)
    then show ?thesis
      by simp
  qed
  ultimately show ?thesis
    using n by (simp only: k p1 p2) linarith
next
  case False
  define c where "c = \<lceil>1 / a\<rceil>"
  define n where "n = nat (c - 1)"
  define b where "b = bitlen_nat n"
  have inv: "1 < 1 / a"
    using False assms by simp
  have c: "1 / a \<le> of_int c" "of_int c - 1 < 1 / a"
    by (simp_all add: c_def) linarith+
  have c2: "2 \<le> c"
    using inv c(1) by linarith
  have n: "0 < n" "of_nat n = (of_int c :: rat) - 1"
    using c2 by (simp_all add: n_def)
  have bb: "2 ^ b \<le> 2 * n" "n < 2 ^ b"
    using bitlen_nat_bounds [OF n(1)] by (simp_all add: b_def)
  then have b1: "1 \<le> b"
    using n(1) by (cases b) auto
  have k: "floor_log2 a = - int b"
    using False by (simp add: floor_log2_def n_def b_def c_def)
  have up: "1 / a \<le> (2::rat) ^ b"
  proof -
    have "n + 1 \<le> 2 ^ b"
      using bb(2) by simp
    then have "(of_nat (n + 1) :: rat) \<le> of_nat (2 ^ b)"
      by (simp only: of_nat_le_iff)
    then have "of_nat n + 1 \<le> (2::rat) ^ b"
      by simp
    then show ?thesis
      using c(1) n(2) by linarith
  qed
  have lo: "(2::rat) ^ (b - 1) < 1 / a"
  proof -
    have "2 * 2 ^ (b - 1) = (2::nat) ^ b"
      using b1 by (cases b) simp_all
    then have "2 ^ (b - 1) \<le> n"
      using bb(1) by simp
    then have "(2::rat) ^ (b - 1) \<le> of_nat n"
      by (metis of_nat_le_iff of_nat_numeral of_nat_power)
    then show ?thesis
      using c(2) n(2) by linarith
  qed
  have p1: "(2::rat) powi (- int b) = 1 / 2 ^ b"
    by (simp add: power_int_minus field_simps)
  have p2: "(2::rat) powi (- int b + 1) = 1 / 2 ^ (b - 1)"
  proof -
    have "- int b + 1 = - int (b - 1)"
      using b1 by simp
    then show ?thesis
      by (simp only: power_int_minus power_int_of_nat) (simp add: field_simps)
  qed
  have "1 / 2 ^ b \<le> a"
    using up assms by (simp add: field_simps)
  moreover have "a < 1 / 2 ^ (b - 1)"
    using lo assms by (simp add: field_simps)
  ultimately show ?thesis
    by (simp only: k p1 p2)
qed

lemma floor_log2_unique:
  assumes "2 powi k \<le> a" and "a < 2 powi (k + 1)"
  shows "floor_log2 a = k"
proof -
  have pos: "0 < a"
    using assms(1) by (rule less_le_trans [rotated]) simp
  note b = floor_log2_bounds [OF pos]
  have "(2::rat) powi k < 2 powi (floor_log2 a + 1)"
    using assms(1) b by linarith
  then have 1: "k < floor_log2 a + 1"
    by (metis not_le power_int_increasing one_le_numeral linorder_not_less)
  have "(2::rat) powi floor_log2 a < 2 powi (k + 1)"
    using assms(2) b by linarith
  then have 2: "floor_log2 a < k + 1"
    by (metis not_le power_int_increasing one_le_numeral linorder_not_less)
  show ?thesis
    using 1 2 by simp
qed

lemma round_half_even_of_int [simp]: "round_half_even (of_int m) = m"
  by (simp add: round_half_even_def)

lemma round_half_even_bounds:
  "of_int (round_half_even x) \<le> x + 1 / 2 \<and> x - 1 / 2 \<le> of_int (round_half_even x)"
  by (simp add: round_half_even_def Let_def) linarith

lemma round_half_even_nonneg: "0 \<le> x \<Longrightarrow> 0 \<le> round_half_even x"
  by (simp add: round_half_even_def Let_def)

lemma power_int_less_imp_less:
  assumes "(2::rat) powi i < 2 powi j"
  shows "i < j"
proof (rule ccontr)
  assume "\<not> i < j"
  then have "(2::rat) powi j \<le> 2 powi i"
    by (intro power_int_increasing) simp_all
  with assms show False
    by simp
qed

lemma round_d_exact:
  assumes m: "0 < m" "m < 2 ^ 53"
    and e: "- 1074 \<le> e"
    and small: "of_int m * 2 powi e < (2::rat) powi 1024"
  shows "round_d (of_int m * 2 powi e) = Finite (of_int m * 2 powi e)"
proof -
  define a :: rat where "a = of_int m * 2 powi e"
  define k where "k = floor_log2 a"
  define E where "E = max (k - 52) (- 1074)"
  have pos: "0 < a"
    using m(1) by (simp add: a_def)
  have kb: "2 powi k \<le> a" "a < 2 powi (k + 1)"
    using floor_log2_bounds [OF pos] by (simp_all add: k_def)
  have "a < 2 ^ 53 * 2 powi e"
  proof -
    have "(of_int m :: rat) < 2 ^ 53"
      using m(2) by (metis of_int_less_iff of_int_numeral of_int_power)
    then show ?thesis
      unfolding a_def by (intro mult_strict_right_mono) simp_all
  qed
  also have "2 ^ 53 * 2 powi e = (2::rat) powi (53 + e)"
    by (simp add: power_int_add)
  finally have "(2::rat) powi k < 2 powi (53 + e)"
    using kb(1) by linarith
  then have "k < 53 + e"
    by (rule power_int_less_imp_less)
  then have Ee: "E \<le> e"
    using e by (simp add: E_def)
  have "a / 2 powi E = of_int m * 2 powi (e - E)"
    by (simp add: a_def power_int_diff)
  also have "2 powi (e - E) = (2::rat) ^ nat (e - E)"
    using Ee by (simp add: power_int_def)
  finally have "a / 2 powi E = of_int (m * 2 ^ nat (e - E))"
    by simp
  then have "round_half_even (a / 2 powi E) = m * 2 ^ nat (e - E)"
    by (simp only: round_half_even_of_int)
  then have "of_int (round_half_even (a / 2 powi E)) * 2 powi E = of_int m * 2 powi (e - E) * 2 powi E"
    using Ee by (simp add: power_int_def)
  also have "\<dots> = a"
    by (simp add: a_def power_int_diff)
  finally have r: "of_int (round_half_even (a / 2 powi E)) * 2 powi E = a" .
  have "round_d a = Finite a"
    using pos small r
    by (simp add: round_d_def Let_def flip: k_def E_def a_def)
  then show ?thesis
    by (simp add: a_def)
qed

lemma round_d_bound:
  assumes "0 \<le> q" and "q \<le> 2 ^ 1000"
  shows "\<exists>r. round_d q = Finite r \<and> 0 \<le> r \<and> r \<le> 2 * q + 1"
proof (cases "q = 0")
  case True
  then show ?thesis
    by (simp add: round_d_def)
next
  case False
  then have pos: "0 < q"
    using assms(1) by simp
  define k where "k = floor_log2 q"
  define E where "E = max (k - 52) (- 1074)"
  define M where "M = round_half_even (q / 2 powi E)"
  have kb: "2 powi k \<le> q"
    using floor_log2_bounds [OF pos] by (simp add: k_def)
  have pE: "0 < (2::rat) powi E"
    by simp
  have pE1: "(2::rat) powi E \<le> q + 1"
  proof (cases "k - 52 \<le> - 1074")
    case True
    then have "E = - 1074"
      by (simp add: E_def)
    moreover have "(2::rat) powi (- 1074) \<le> 2 powi 0"
      by (intro power_int_increasing) simp_all
    ultimately show ?thesis
      using pos by simp
  next
    case False
    then have "E = k - 52"
      by (simp add: E_def)
    moreover have "(2::rat) powi (k - 52) \<le> 2 powi k"
      by (intro power_int_increasing) simp_all
    ultimately show ?thesis
      using kb by simp
  qed
  have M: "0 \<le> M" "of_int M \<le> q / 2 powi E + 1 / 2"
    using round_half_even_bounds [of "q / 2 powi E"] round_half_even_nonneg [of "q / 2 powi E"] pos
    by (simp_all add: M_def)
  have "of_int M * 2 powi E \<le> (q / 2 powi E + 1 / 2) * 2 powi E"
    using M(2) pE by (intro mult_right_mono) simp_all
  also have "\<dots> = q + 2 powi E / 2"
    by (simp add: field_simps)
  finally have r1: "of_int M * 2 powi E \<le> q + 2 powi E / 2" .
  have r2: "of_int M * 2 powi E \<le> 2 * q + 1"
    using r1 pE1 pos by linarith
  have r0: "0 \<le> of_int M * (2::rat) powi E"
    using M(1) by simp
  have "2 * q + 1 < (2::rat) powi 1024"
  proof -
    have "2 * q + 1 \<le> 2 * 2 ^ 1000 + (1::rat)"
      using assms(2) by simp
    also have "\<dots> < 2 powi 1024"
      by simp
    finally show ?thesis .
  qed
  then have "\<not> 2 powi 1024 \<le> of_int M * (2::rat) powi E"
    using r2 by linarith
  then have "round_d q = Finite (of_int M * 2 powi E)"
    using pos by (simp add: round_d_def Let_def flip: k_def E_def M_def)
  then show ?thesis
    using r0 r2 by simp
qed

lemma is_double_repr:
  assumes "is_double q" and "1024 \<le> q"
  shows "\<exists>m e. q = of_int m * 2 powi e \<and> 0 < m \<and> m < 2 ^ 53 \<and> - 1064 \<le> e \<and> q < 2 powi 1024"
proof -
  have pos: "0 < q"
    using assms(2) by simp
  define k where "k = floor_log2 q"
  define E where "E = max (k - 52) (- 1074)"
  define M where "M = round_half_even (q / 2 powi E)"
  have kb: "2 powi k \<le> q" "q < 2 powi (k + 1)"
    using floor_log2_bounds [OF pos] by (simp_all add: k_def)
  have rd: "round_d q =
              (if 2 powi 1024 \<le> of_int M * (2::rat) powi E then PosInf
               else Finite (of_int M * 2 powi E))"
    using pos by (simp add: round_d_def Let_def flip: k_def E_def M_def)
  have fin: "\<not> 2 powi 1024 \<le> of_int M * (2::rat) powi E" and eq: "of_int M * 2 powi E = q"
    using assms(1) rd by (auto simp: is_double_def split: if_splits)
  have "(2::rat) powi 10 \<le> q"
    using assms(2) by simp
  then have "(2::rat) powi 10 < 2 powi (k + 1)"
    using kb(2) by linarith
  then have "10 < k + 1"
    by (rule power_int_less_imp_less)
  then have E: "E = k - 52" "- 1064 \<le> E"
    by (simp_all add: E_def)
  have Mq: "of_int M = q / 2 powi E"
    using eq by (simp add: field_simps)
  have "0 < (of_int M :: rat)"
    using pos by (simp add: Mq)
  then have M0: "0 < M"
    by simp
  have "q / 2 powi E < 2 powi (k + 1) / 2 powi E"
    using kb(2) by (intro divide_strict_right_mono) simp_all
  also have "\<dots> = (2::rat) powi 53"
    by (simp add: E(1) flip: power_int_diff)
  finally have "(of_int M :: rat) < 2 ^ 53"
    by (simp add: Mq)
  then have M1: "M < 2 ^ 53"
    by (metis of_int_less_iff of_int_numeral of_int_power)
  have "q < 2 powi 1024"
    using fin eq by simp
  then show ?thesis
    using eq M0 M1 E(2) by (intro exI [of _ M] exI [of _ E]) simp
qed

lemma div_1024_exact:
  assumes "is_double q" and "1024 \<le> q"
  shows "round_d (q / 1024) = Finite (q / 1024)"
proof -
  obtain m e where me: "q = of_int m * 2 powi e" "0 < m" "m < 2 ^ 53" "- 1064 \<le> e"
    "q < 2 powi 1024"
    using is_double_repr [OF assms] by blast
  have q: "q / 1024 = of_int m * 2 powi (e - 10)"
    by (simp add: me(1) power_int_diff)
  have "q / 1024 < q"
    using assms(2) by simp
  then have "of_int m * 2 powi (e - 10) < (2::rat) powi 1024"
    using me(5) q by linarith
  then have "round_d (of_int m * 2 powi (e - 10)) = Finite (of_int m * 2 powi (e - 10))"
    using me by (intro round_d_exact) simp_all
  then show ?thesis
    by (simp only: q)
qed

lemma is_double_div_1024: "is_double q \<Longrightarrow> 1024 \<le> q \<Longrightarrow> is_double (q / 1024)"
  by (simp add: is_double_def div_1024_exact [unfolded is_double_def])

section \<open>Formatter: byte counts\<close>

lemma units_length [simp]: "length units = 4"
  by (simp add: units_def)

lemma scale_stop: "q < 1024 \<or> 3 \<le> i \<Longrightarrow> scale (Finite q) i = (Finite q, i)"
  by (auto simp: scale.simps [of "Finite q" i])

lemma scale_step:
  assumes "is_double q" and "1024 \<le> q" and "i < 3"
  shows "scale (Finite q) i = scale (Finite (q / 1024)) (Suc i)"
  using assms by (simp add: scale.simps [of "Finite q" i] div_1024_exact)

lemma scale_double:
  assumes "is_double q"
  shows "scale (Finite q) 0 = (Finite (q / 1024 ^ unit_index q), unit_index q)"
proof (cases "q < 1024")
  case True
  then show ?thesis
    by (simp add: unit_index_def scale_stop)
next
  case f1: False
  then have g1: "1024 \<le> q"
    by simp
  have d1: "is_double (q / 1024)"
    using assms g1 by (rule is_double_div_1024)
  have s1: "scale (Finite q) 0 = scale (Finite (q / 1024)) (Suc 0)"
    using assms g1 by (rule scale_step) simp
  show ?thesis
  proof (cases "q < 1024 ^ 2")
    case True
    then have "q / 1024 < 1024"
      by simp
    then have "scale (Finite (q / 1024)) (Suc 0) = (Finite (q / 1024), Suc 0)"
      by (intro scale_stop) simp
    with s1 have "scale (Finite q) 0 = (Finite (q / 1024), Suc 0)"
      by simp
    then show ?thesis
      using f1 True by (simp add: unit_index_def)
  next
    case f2: False
    then have g2: "1024 \<le> q / 1024"
      by simp
    have d2: "is_double (q / 1024 / 1024)"
      using d1 g2 by (rule is_double_div_1024)
    have s2: "scale (Finite (q / 1024)) (Suc 0) = scale (Finite (q / 1024 / 1024)) (Suc (Suc 0))"
      using d1 g2 by (rule scale_step) simp
    show ?thesis
    proof (cases "q < 1024 ^ 3")
      case True
      then have "q / 1024 / 1024 < 1024"
        by simp
      then have "scale (Finite (q / 1024 / 1024)) (Suc (Suc 0))
                   = (Finite (q / 1024 / 1024), Suc (Suc 0))"
        by (intro scale_stop) simp
      with s1 s2 have "scale (Finite q) 0 = (Finite (q / 1024 / 1024), Suc (Suc 0))"
        by simp
      then show ?thesis
        using f1 f2 True by (simp add: unit_index_def)
    next
      case f3: False
      then have g3: "1024 \<le> q / 1024 / 1024"
        by simp
      have s3: "scale (Finite (q / 1024 / 1024)) (Suc (Suc 0))
                  = scale (Finite (q / 1024 / 1024 / 1024)) (Suc (Suc (Suc 0)))"
        using d2 g3 by (rule scale_step) simp
      have "scale (Finite (q / 1024 / 1024 / 1024)) (Suc (Suc (Suc 0)))
              = (Finite (q / 1024 / 1024 / 1024), Suc (Suc (Suc 0)))"
        by (intro scale_stop) simp
      with s1 s2 s3 have "scale (Finite q) 0 = (Finite (q / 1024 / 1024 / 1024), Suc (Suc (Suc 0)))"
        by simp
      then show ?thesis
        using f1 f2 f3 by (simp add: unit_index_def)
    qed
  qed
qed

lemma unit_index_mono: "q \<le> q' \<Longrightarrow> unit_index q \<le> unit_index q'"
  by (simp add: unit_index_def)

lemma to_int32_small: "0 \<le> q \<Longrightarrow> q < 1024 \<Longrightarrow> to_int32 (Finite q) = \<lfloor>q\<rfloor>"
proof -
  assume q: "0 \<le> q" "q < 1024"
  then have "0 \<le> \<lfloor>q\<rfloor>" "\<lfloor>q\<rfloor> < 1024"
    by (simp_all add: floor_less_iff)
  then show ?thesis
    using q by (simp add: to_int32_def Let_def)
qed

lemma is_dec_digit_char: "d < 10 \<Longrightarrow> is_dec (digit_char d)"
proof -
  assume "d < 10"
  then have "d \<in> {0, 1, 2, 3, 4, 5, 6, 7, 8, 9}"
    by auto
  then show ?thesis
    by (auto simp: digit_char_def is_dec_def digit_of_def)
qed

lemma decimal_digits: "list_all is_dec (decimal n) \<and> decimal n \<noteq> []"
proof (induction n rule: decimal.induct)
  case (1 n)
  show ?case
  proof (cases "n < 10")
    case True
    then show ?thesis
      by (simp add: decimal.simps [of n] is_dec_digit_char)
  next
    case False
    then show ?thesis
      using "1.IH" by (simp add: decimal.simps [of n] is_dec_digit_char)
  qed
qed

lemma one_decimal_tenths: "one_decimal (tenths x)"
proof -
  define t where "t = nat \<lfloor>x * 10 + 1 / 2\<rfloor>"
  have "decimal (t mod 10) = [digit_char (t mod 10)]"
    by (simp add: decimal_digit)
  then show ?thesis
    using decimal_digits [of "t div 10"]
    by (simp add: one_decimal_def tenths_def is_dec_digit_char flip: t_def)
qed

lemma toFixed1_tenths: "0 \<le> x \<Longrightarrow> x < 10 ^ 21 \<Longrightarrow> toFixed1 (Finite x) = tenths x"
  by (simp add: tenths_def Let_def)

lemma is_double_0: "is_double 0"
  by (simp add: is_double_def round_d_def)

lemma is_double_nat:
  assumes "i < 2 ^ 53"
  shows "is_double (of_nat i)"
proof (cases "i = 0")
  case True
  then show ?thesis
    by (simp add: is_double_0)
next
  case False
  have "(of_int (int i) :: rat) * 2 powi 0 < 2 powi 1024"
  proof -
    have "int i < 2 ^ 53"
      using assms by (metis of_nat_less_iff of_nat_numeral of_nat_power)
    then have "(of_int (int i) :: rat) < 2 ^ 53"
      by (metis of_int_less_iff of_int_numeral of_int_power)
    also have "(2::rat) ^ 53 < 2 powi 1024"
      by simp
    finally show ?thesis
      by simp
  qed
  moreover have "int i < 2 ^ 53"
    using assms by (metis of_nat_less_iff of_nat_numeral of_nat_power)
  ultimately have "round_d (of_int (int i) * 2 powi 0) = Finite (of_int (int i) * 2 powi 0)"
    using False by (intro round_d_exact) simp_all
  then show ?thesis
    by (simp add: is_double_def)
qed

lemma bytes_double:
  assumes "is_double q" and "0 \<le> q"
  shows "bytes (Num (Finite q)) =
           Inr ((if unit_index q = 0 then decimal (nat \<lfloor>q\<rfloor>)
                 else if q / 1024 ^ unit_index q < 10 ^ 21 then tenths (q / 1024 ^ unit_index q)
                 else num_to_string (Finite (q / 1024 ^ unit_index q)))
                @ '' '' @ units ! unit_index q)"
proof -
  let ?i = "unit_index q"
  let ?v = "q / 1024 ^ ?i"
  have sc: "scale (Finite q) 0 = (Finite ?v, ?i)"
    using assms(1) by (rule scale_double)
  have b: "bytes (Num (Finite q)) =
             Inr ((if ?i = 0 then show_int (to_int32 (Finite ?v)) else toFixed1 (Finite ?v))
                  @ '' '' @ units ! ?i)"
    by (simp add: bytes_def to_number_def sc)
  have v0: "0 \<le> ?v"
    using assms(2) by simp
  show ?thesis
  proof (cases "?i = 0")
    case True
    then have "q < 1024"
      by (simp add: unit_index_def split: if_splits)
    then have "to_int32 (Finite q) = \<lfloor>q\<rfloor>"
      using assms(2) by (simp add: to_int32_small)
    moreover have "0 \<le> \<lfloor>q\<rfloor>"
      using assms(2) by simp
    ultimately have "show_int (to_int32 (Finite q)) = decimal (nat \<lfloor>q\<rfloor>)"
      by (simp add: show_int_def)
    then show ?thesis
      using True by (simp add: b)
  next
    case False
    show ?thesis
    proof (cases "?v < 10 ^ 21")
      case True
      then have "toFixed1 (Finite ?v) = tenths ?v"
        using v0 by (rule toFixed1_tenths [rotated])
      then show ?thesis
        using False True by (simp only: b if_False if_True)
    next
      case big: False
      then have "10 ^ 21 \<le> \<bar>?v\<bar>"
        using v0 by (simp only: abs_of_nonneg not_less)
      then have "toFixed1 (Finite ?v) = num_to_string (Finite ?v)"
        by (simp only: toFixed1.simps if_True)
      then show ?thesis
        using False big by (simp only: b if_False)
    qed
  qed
qed

text \<open>
  C4. \<open>bytes\<close> returns the empty string for \<^verbatim>\<open>null\<close>, \<^verbatim>\<open>undefined\<close> and the empty
  string, and \<^verbatim>\<open>0 B\<close> for 0. For every number \<open>q \<ge> 0\<close> the loop divides by 1024 while
  the value is at least 1024 and the unit is not the last one; the base unit shows the
  integer part; a scaled unit shows the value with one decimal place as long as the
  scaled value is below \<open>10 ^ 21\<close> (from there on the plain conversion of the number);
  the unit does not decrease when the number grows.
\<close>

theorem bytes_of_number:
  assumes "is_double q" and "0 \<le> q"
  shows "bytes Null = Inr [] \<and> bytes Undefined = Inr [] \<and> bytes (Str []) = Inr [] \<and>
         bytes (Num (Finite 0)) = Inr ''0 B'' \<and>
         scale (Finite q) 0 = (Finite (q / 1024 ^ unit_index q), unit_index q) \<and>
         bytes (Num (Finite q)) =
           Inr ((if unit_index q = 0 then decimal (nat \<lfloor>q\<rfloor>)
                 else if q / 1024 ^ unit_index q < 10 ^ 21 then tenths (q / 1024 ^ unit_index q)
                 else num_to_string (Finite (q / 1024 ^ unit_index q)))
                @ '' '' @ units ! unit_index q) \<and>
         one_decimal (tenths (q / 1024 ^ unit_index q)) \<and>
         (\<forall>q'. is_double q' \<and> q \<le> q' \<longrightarrow> snd (scale (Finite q) 0) \<le> snd (scale (Finite q') 0))"
proof -
  have e: "bytes Null = Inr []" "bytes Undefined = Inr []" "bytes (Str []) = Inr []"
    by (simp_all add: bytes_def)
  have z: "bytes (Num (Finite 0)) = Inr ''0 B''"
    using bytes_double [OF is_double_0] by (simp add: unit_index_def units_def)
  have m: "snd (scale (Finite q) 0) \<le> snd (scale (Finite q') 0)" if "is_double q'" "q \<le> q'" for q'
    using that assms(1) by (simp add: scale_double unit_index_mono)
  show ?thesis
    using e z m scale_double [OF assms(1)] bytes_double [OF assms] one_decimal_tenths
    by blast
qed

theorem bytes_of_number_witness:
  "is_double 2048 \<and> bytes (Num (Finite 2048)) = Inr ''2.0 KB'' \<and>
   is_double 512 \<and> bytes (Num (Finite 512)) = Inr ''512 B'' \<and>
   snd (scale (Finite 512) 0) \<le> snd (scale (Finite 2048) 0)"
proof -
  have d: "is_double 2048" "is_double 512"
    using is_double_nat [of 2048] is_double_nat [of 512] by simp_all
  have p: "(0::rat) \<le> 2048" "(0::rat) \<le> 512"
    by simp_all
  note w1 = bytes_of_number [OF d(1) p(1)] and w2 = bytes_of_number [OF d(2) p(2)]
  have u: "unit_index 2048 = 1" "unit_index 512 = 0"
    by (simp_all add: unit_index_def)
  have "\<lfloor>(2::rat) * 10 + 1 / 2\<rfloor> = 20"
    by (rule floor_unique) simp_all
  then have "nat \<lfloor>(2::rat) * 10 + 1 / 2\<rfloor> = 20"
    by (simp only: nat_numeral)
  then have t: "tenths 2 = ''2.0''"
    by (simp add: tenths_def decimal_digit digit_char_def)
  have c: "decimal 512 = ''512''"
    by (simp add: decimal.simps [of 512] decimal.simps [of 51] decimal_digit digit_char_def)
  have a: "bytes (Num (Finite 2048)) =
             Inr ((if unit_index 2048 = 0 then decimal (nat \<lfloor>2048 :: rat\<rfloor>)
                   else if 2048 / 1024 ^ unit_index 2048 < (10::rat) ^ 21
                     then tenths (2048 / 1024 ^ unit_index 2048)
                   else num_to_string (Finite (2048 / 1024 ^ unit_index 2048)))
                  @ '' '' @ units ! unit_index 2048)"
    using w1 by (elim conjE) assumption
  have b: "bytes (Num (Finite 512)) =
             Inr ((if unit_index 512 = 0 then decimal (nat \<lfloor>512 :: rat\<rfloor>)
                   else if 512 / 1024 ^ unit_index 512 < (10::rat) ^ 21
                     then tenths (512 / 1024 ^ unit_index 512)
                   else num_to_string (Finite (512 / 1024 ^ unit_index 512)))
                  @ '' '' @ units ! unit_index 512)"
    using w2 by (elim conjE) assumption
  have m: "\<forall>q'. is_double q' \<and> 512 \<le> q' \<longrightarrow>
              snd (scale (Finite 512) 0) \<le> snd (scale (Finite q') 0)"
    using w2 by (elim conjE) assumption
  have a': "bytes (Num (Finite 2048)) = Inr ''2.0 KB''"
    by (simp only: a u) (simp add: t units_def)
  have b': "bytes (Num (Finite 512)) = Inr ''512 B''"
    by (simp only: b u) (simp add: c units_def)
  have "snd (scale (Finite 512) 0) \<le> snd (scale (Finite 2048) 0)"
    using m d(1) by simp
  then show ?thesis
    using a' b' d by simp
qed

text \<open>
  A byte count whose value in GB is \<open>10 ^ 21\<close>: the conversion switches to the exponent
  form, which has no decimal place.
\<close>

lemma round_d_1e21: "round_d 1000000000000000000000 = Finite 1000000000000000000000"
  using round_d_exact [of "5 ^ 21" 21] by simp

lemma round_d_2e21: "round_d 2000000000000000000000 = Finite 2000000000000000000000"
  using round_d_exact [of "5 ^ 21" 22] by simp

lemma decimal_pow10: "decimal (10 ^ k) = CHR ''1'' # replicate k CHR ''0''"
proof (induction k)
  case 0
  show ?case
    by (simp add: decimal_digit digit_char_def)
next
  case (Suc k)
  have "decimal (10 ^ Suc k) = decimal (10 ^ k) @ ''0''"
    using decimal.simps [of "10 ^ Suc k"] by (simp add: digit_char_def)
  then show ?case
    by (simp add: Suc.IH replicate_append_same)
qed

lemma show_pos_1e21: "show_pos (10 ^ 21) = ''1e+21''"
proof -
  have c: "cands (10 ^ 21) 22 1 = [(1, 21), (2, 21)]"
    by (simp add: cands_def Let_def)
  have f: "filter (\<lambda>c. round_d (cand_val c) = Finite (10 ^ 21)) (cands (10 ^ 21) 22 1) = [(1, 21)]"
    by (simp only: c) (simp add: cand_val_def round_d_1e21 round_d_2e21)
  have "shortest (Suc 15) (10 ^ 21) 22 1 = (1, 21)"
    by (simp only: shortest.simps f list.case)
  moreover have "Suc 15 = 16"
    by simp
  ultimately have s: "shortest 16 (10 ^ 21) 22 1 = (1, 21)"
    by (simp only:)
  have fl: "nat \<lfloor>(10::rat) ^ 21\<rfloor> = 10 ^ 21"
    by simp
  have len: "int (length (decimal (10 ^ 21))) = 22"
    by (simp only: decimal_pow10) simp
  have one: "(1::rat) \<le> 10 ^ 21"
    by simp
  have d: "dec_exp (10 ^ 21) = 22"
    by (simp only: dec_exp_def one if_True fl len)
  have d1: "decimal (Suc 0) = ''1''" and d21: "decimal 21 = ''21''"
    by (simp_all add: decimal.simps [of 21] decimal_digit digit_char_def)
  have "show_pos (10 ^ 21) =
          (let c = (1::nat, 21::int);
               ds = strip_zeros (decimal (fst c));
               k = int (length ds);
               n = int (length (decimal (fst c))) + snd c
           in if k \<le> n \<and> n \<le> 21 then ds @ replicate (nat (n - k)) CHR ''0''
              else if 0 < n \<and> n \<le> 21 then take (nat n) ds @ ''.'' @ drop (nat n) ds
              else if - 6 < n \<and> n \<le> 0 then ''0.'' @ replicate (nat (- n)) CHR ''0'' @ ds
              else (if k = 1 then ds else take 1 ds @ ''.'' @ drop 1 ds)
                   @ ''e'' @ (if 0 \<le> n - 1 then ''+'' else ''-'') @ decimal (nat \<bar>n - 1\<bar>))"
    by (simp only: show_pos_def d s)
  also have "\<dots> = ''1e+21''"
    by (simp add: Let_def d1 d21)
  finally show ?thesis .
qed

lemma num_to_string_1e21: "num_to_string (Finite 1000000000000000000000) = ''1e+21''"
  using show_pos_1e21 by simp

theorem bytes_huge_counterexample:
  "is_double (10 ^ 21 * 2 ^ 30) \<and>
   bytes (Num (Finite (10 ^ 21 * 2 ^ 30))) = Inr ''1e+21 GB'' \<and>
   \<not> one_decimal ''1e+21''"
proof -
  have n: "(10::rat) ^ 21 * 2 ^ 30 = 1073741824000000000000000000000"
    by simp
  have d: "is_double 1073741824000000000000000000000"
    using round_d_exact [of "5 ^ 21" 51] by (simp add: is_double_def)
  have u: "unit_index 1073741824000000000000000000000 = 3"
    by (simp add: unit_index_def)
  have v: "(1073741824000000000000000000000::rat) / 1024 ^ 3 = 1000000000000000000000"
    by simp
  have "bytes (Num (Finite 1073741824000000000000000000000))
          = Inr (num_to_string (Finite 1000000000000000000000) @ '' '' @ units ! 3)"
    using bytes_double [OF d] by (simp only: u v) simp
  then have "bytes (Num (Finite 1073741824000000000000000000000)) = Inr ''1e+21 GB''"
    by (simp only: num_to_string_1e21) (simp add: units_def)
  moreover have "\<not> one_decimal ''1e+21''"
    by (simp add: one_decimal_def)
  ultimately show ?thesis
    using d by (simp only: n) simp
qed

section \<open>Some values\<close>

lemma round_d_quarter: "round_d (1 / 4) = Finite (1 / 4)"
  using round_d_exact [of 1 "- 2"] by (simp add: power_int_minus)

lemma round_d_nats:
  "round_d 1 = Finite 1" "round_d 2 = Finite 2" "round_d 25 = Finite 25" "round_d 100 = Finite 100"
  using is_double_nat [of 1] is_double_nat [of 2] is_double_nat [of 25] is_double_nat [of 100]
  by (simp_all add: is_double_def)

lemma tenths_nat: "tenths (of_nat n) = decimal n @ ''.0''"
proof -
  have "\<lfloor>(of_nat n :: rat) * 10 + 1 / 2\<rfloor> = int (10 * n)"
    by (rule floor_unique) simp_all
  then have "nat \<lfloor>(of_nat n :: rat) * 10 + 1 / 2\<rfloor> = 10 * n"
    by simp
  then show ?thesis
    by (simp add: tenths_def)
qed

lemma decimal_values:
  "decimal 2 = ''2''" "decimal 25 = ''25''" "decimal 100 = ''100''" "decimal 512 = ''512''"
  by (simp_all add: decimal.simps [of 512] decimal.simps [of 100] decimal.simps [of 51]
      decimal.simps [of 25] decimal.simps [of 10] decimal_digit digit_char_def)

lemma tenths_values:
  "tenths 0 = ''0.0''" "tenths 2 = ''2.0''" "tenths 25 = ''25.0''" "tenths 100 = ''100.0''"
  using tenths_nat [of 0] tenths_nat [of 2] tenths_nat [of 25] tenths_nat [of 100]
  by (simp_all add: decimal_values)

lemma bytes_values:
  "bytes (Num (Finite 0)) = Inr ''0 B''"
  "bytes (Num (Finite 512)) = Inr ''512 B''"
  "bytes (Num (Finite 2048)) = Inr ''2.0 KB''"
proof -
  have u: "unit_index 0 = 0" "unit_index 512 = 0" "unit_index 2048 = 1"
    by (simp_all add: unit_index_def)
  have d: "is_double 512" "is_double 2048"
    using is_double_nat [of 512] is_double_nat [of 2048] by simp_all
  show "bytes (Num (Finite 0)) = Inr ''0 B''"
    using bytes_double [OF is_double_0] by (simp add: u units_def)
  show "bytes (Num (Finite 512)) = Inr ''512 B''"
    using bytes_double [OF d(1)] by (simp add: u units_def decimal_values)
  have "bytes (Num (Finite 2048)) = Inr (tenths (2048 / 1024 ^ 1) @ '' '' @ units ! 1)"
    using bytes_double [OF d(2)] by (simp add: u)
  then show "bytes (Num (Finite 2048)) = Inr ''2.0 KB''"
    by (simp add: tenths_values units_def)
qed

lemma str_to_num_abc: "str_to_num ''abc'' = NaN"
  by code_simp

lemma bytes_NaN:
  "bytes (Num NaN) = Inr ''0 B''" "bytes (Str ''abc'') = Inr ''0 B''"
  by (simp_all add: bytes_def to_number_def to_int32_def show_int_def units_def str_to_num_abc)

lemma formatted_values:
  "formatted (Num (Finite 0)) = ''0 B''"
  "formatted (Num (Finite 512)) = ''512 B''"
  "formatted (Num (Finite 2048)) = ''2.0 KB''"
  by (simp_all add: formatted_def bytes_values)

section \<open>Claims on the Chart Renderer\<close>

lemma num_max2_Finite: "num_max2 (Finite a) (Finite b) = Finite (max a b)"
  by (simp add: max_def)

lemma foldl_num_max2:
  "list_all nonneg xs \<Longrightarrow>
   foldl num_max2 (Finite m) xs = Finite (foldl max m (map value_of xs))"
proof (induction xs arbitrary: m)
  case Nil
  show ?case by simp
next
  case (Cons x xs)
  then obtain q where q: "x = Finite q"
    by (cases x) (simp_all add: nonneg_def)
  have "foldl num_max2 (Finite m) (x # xs) = foldl num_max2 (Finite (max m q)) xs"
    by (simp only: q foldl_Cons num_max2_Finite)
  also have "\<dots> = Finite (foldl max (max m q) (map value_of xs))"
  proof (rule Cons.IH)
    show "list_all nonneg xs"
      using Cons.prems by simp
  qed
  also have "foldl max (max m q) (map value_of xs) = foldl max m (map value_of (x # xs))"
    by (simp only: q list.map foldl_Cons value_of_def jsnum.case)
  finally show ?case .
qed

lemma foldl_max_Max: "foldl max (m::rat) qs = Max (set (m # qs))"
proof -
  have "foldl max m qs = fold max qs m"
    by (simp add: foldl_conv_fold max.commute)
  then show ?thesis
    by (simp only: Max.set_eq_fold)
qed

lemma chart_max_finite:
  assumes "list_all (\<lambda>d. nonneg (d_size d)) data"
  shows "chart_max data = Finite (Max (set (1 # map (\<lambda>d. value_of (d_size d)) data)))"
proof -
  let ?qs = "map (\<lambda>d. value_of (d_size d)) data"
  have n: "list_all nonneg (map d_size data @ [Finite 1])"
    using assms by (simp add: list_all_iff nonneg_def)
  have v: "map value_of (map d_size data @ [Finite 1]) = ?qs @ [1]"
    by (simp add: value_of_def)
  have 0: "list_all (\<lambda>q. 0 \<le> q) (?qs @ [1])"
    using assms by (auto simp: list_all_iff nonneg_def value_of_def split: jsnum.splits)
  have "chart_max data = foldl num_max2 NegInf (map d_size data @ [Finite 1])"
    by (simp add: chart_max_def math_max_def)
  also have "\<dots> = foldl num_max2 (Finite 0) (map d_size data @ [Finite 1])"
  proof (cases data)
    case Nil
    then show ?thesis by simp
  next
    case (Cons d ds)
    then obtain q where "d_size d = Finite q" "0 \<le> q"
      using assms by (cases "d_size d") (simp_all add: nonneg_def)
    then show ?thesis
      using Cons by simp
  qed
  also have "\<dots> = Finite (foldl max 0 (?qs @ [1]))"
    using n by (simp only: foldl_num_max2 v)
  also have "foldl max 0 (?qs @ [1]) = Max (set (0 # ?qs @ [1]))"
    by (rule foldl_max_Max)
  also have "Max (set (0 # ?qs @ [1])) = Max (set (1 # ?qs))"
  proof -
    have "Max (insert 0 (set (1 # ?qs))) = max 0 (Max (set (1 # ?qs)))"
      by (intro Max_insert) simp_all
    moreover have "(0::rat) \<le> Max (set (1 # ?qs))"
      by (rule order_trans [of _ 1]) simp_all
    moreover have "set (0 # ?qs @ [1]) = insert 0 (set (1 # ?qs))"
      by auto
    ultimately show ?thesis
      by (simp only: max_absorb2)
  qed
  finally show ?thesis .
qed

lemma bar_width_bounded:
  assumes "d_size d = Finite q" and "0 \<le> q" and "q \<le> mx" and "1 \<le> mx"
  shows "\<exists>p w. round_d (q / mx) = Finite p \<and> round_d (p * 100) = Finite w \<and>
           bar_width (Finite mx) d = tenths w \<and> one_decimal (tenths w)"
proof -
  have r: "0 \<le> q / mx" "q / mx \<le> 1"
    using assms(2-4) by simp_all
  have "(1::rat) \<le> 2 ^ 1000"
    by (rule one_le_power) simp
  with r(2) have "q / mx \<le> 2 ^ 1000"
    by (rule order_trans)
  then obtain p where p: "round_d (q / mx) = Finite p" "0 \<le> p" "p \<le> 2 * (q / mx) + 1"
    using round_d_bound [OF r(1)] by blast
  have p3: "p \<le> 3"
    using p(3) r(2) by linarith
  have "p * 100 \<le> 300"
    using p3 by simp
  moreover have "(300::rat) \<le> 2 ^ 1000"
    by simp
  ultimately have "p * 100 \<le> 2 ^ 1000"
    by (rule order_trans)
  moreover have p0: "0 \<le> p * 100"
    using p(2) by simp
  ultimately obtain w where w: "round_d (p * 100) = Finite w" "0 \<le> w" "w \<le> 2 * (p * 100) + 1"
    using round_d_bound by blast
  have "w \<le> 601"
    using w(3) p3 by linarith
  moreover have "(601::rat) < 10 ^ 21"
    by simp
  ultimately have "w < 10 ^ 21"
    by (rule le_less_trans)
  then have "toFixed1 (Finite w) = tenths w"
    using w(2) by (rule toFixed1_tenths [rotated])
  moreover have "mx \<noteq> 0"
    using assms(4) by simp
  ultimately have "bar_width (Finite mx) d = tenths w"
    by (simp add: bar_width_def assms(1) p(1) w(1))
  then show ?thesis
    using p(1) w(1) one_decimal_tenths by blast
qed

lemma bar_width_zero:
  assumes "d_size d = Finite 0" and "1 \<le> mx"
  shows "bar_width (Finite mx) d = ''0.0''"
proof -
  have "round_d 0 = Finite 0"
    by (simp add: round_d_def)
  moreover have "tenths 0 = ''0.0''"
    by (simp add: tenths_def)
  moreover have "mx \<noteq> 0"
    using assms(2) by simp
  ultimately show ?thesis
    by (simp add: bar_width_def assms(1) toFixed1_tenths)
qed

lemma mapM_list_all2: "mapM f xs = Inr ys \<Longrightarrow> list_all2 (\<lambda>x y. f x = Inr y) xs ys"
  by (induction xs arbitrary: ys) (auto simp: bnd_eq_Inr)

lemma returns_bar_row_primitive: "primitive (d_name d) \<Longrightarrow> returns (bar_row mx d)"
  by (simp add: bar_row_def returns_esc returns_bytes)

lemma bar_row_chart_row:
  assumes "primitive (d_name d)"
  shows "bar_row mx d
           = Inr (chart_row (escaped (d_name d)) (bar_width mx d) (formatted (Num (d_size d))))"
proof -
  have \<open>bar_row mx d = template (map Inr
          [''\<newline>    <div style="display:flex;align-items:center;gap:8px;margin:4px 0">\<newline>      <div class="list" style="flex:1;white-space:nowrap;overflow:hidden;text-overflow:ellipsis">'',
           escaped (d_name d),
           ''</div>\<newline>      <div style="width:260px;background:#1b1b1f;border:1px solid #2a2a30;border-radius:6px;height:16px;position:relative">\<newline>        <div style="position:absolute;left:0;top:0;bottom:0;width:'',
           bar_width mx d,
           ''%;background:#22c55e;border-radius:6px"></div>\<newline>      </div>\<newline>      <div style="width:80px;text-align:right">'',
           formatted (Num (d_size d)),
           ''</div>\<newline>    </div>''])\<close>
    by (simp add: bar_row_def esc_escaped [OF assms] bytes_formatted)
  then show ?thesis
    by (simp only: template_Inr) (simp add: chart_row_def)
qed

text \<open>
  C5. For bars with primitive names and finite sizes that are not negative, drawn into
  an existing chart element: the scaling maximum is the larger of 1 and the greatest
  size; nothing is thrown, and the content of the element becomes the rows of the bars
  in input order, one per bar; the row of a bar holds its escaped name, its formatted
  size, and as the width of the bar the double nearest to 100 times the double nearest
  to size/max, written with one decimal place, which is \<^verbatim>\<open>0.0\<close> for a bar of size zero.
\<close>

theorem drawBars_scaled_rows:
  assumes "list_all (\<lambda>d. primitive (d_name d) \<and> nonneg (d_size d)) data"
    and "netChart pg = Some old"
  shows "\<exists>mx rows.
     chart_max data = Finite mx \<and>
     mx = Max (set (1 # map (\<lambda>d. value_of (d_size d)) data)) \<and>
     list_all2 (\<lambda>d r. \<exists>p w. round_d (value_of (d_size d) / mx) = Finite p \<and>
                          round_d (p * 100) = Finite w \<and>
                          one_decimal (tenths w) \<and>
                          (if d_size d = Finite 0 then tenths w = ''0.0'' else True) \<and>
                          r = chart_row (escaped (d_name d)) (tenths w) (formatted (Num (d_size d))))
       data rows \<and>
     drawBars ''netChart'' data pg = (None, pg\<lparr>netChart := Some (concat rows)\<rparr>)"
proof -
  define mx where "mx = Max (set (1 # map (\<lambda>d. value_of (d_size d)) data))"
  have nn: "list_all (\<lambda>d. nonneg (d_size d)) data"
    using assms(1) by (simp add: list_all_iff)
  have cm: "chart_max data = Finite mx"
    unfolding mx_def using nn by (rule chart_max_finite)
  have mx1: "1 \<le> mx"
    unfolding mx_def by (rule Max_ge) simp_all
  have le: "value_of (d_size d) \<le> mx" if "d \<in> set data" for d
    unfolding mx_def using that by (intro Max_ge) simp_all
  have "returns (mapM (bar_row (Finite mx)) data)"
    using assms(1) by (simp add: returns_mapM list_all_iff returns_bar_row_primitive)
  then obtain rows where rows: "mapM (bar_row (Finite mx)) data = Inr rows"
    by (rule returnsE)
  have draw: "drawBars ''netChart'' data pg = (None, pg\<lparr>netChart := Some (concat rows)\<rparr>)"
    by (simp add: drawBars_def cm rows set_innerHTML_def assms(2))
  have w: "\<exists>p w. round_d (value_of (d_size d) / mx) = Finite p \<and>
             round_d (p * 100) = Finite w \<and>
             one_decimal (tenths w) \<and>
             (if d_size d = Finite 0 then tenths w = ''0.0'' else True) \<and>
             r = chart_row (escaped (d_name d)) (tenths w) (formatted (Num (d_size d)))"
    if d: "d \<in> set data" and r: "bar_row (Finite mx) d = Inr r" for d r
  proof -
    from nn d obtain q where q: "d_size d = Finite q" "0 \<le> q"
      by (cases "d_size d") (auto simp: list_all_iff nonneg_def)
    have nm: "primitive (d_name d)"
      using assms(1) d by (simp add: list_all_iff)
    have v: "value_of (d_size d) = q"
      by (simp add: q(1) value_of_def)
    have "q \<le> mx"
      using le [OF d] by (simp only: v)
    with q obtain p w where pw: "round_d (q / mx) = Finite p" "round_d (p * 100) = Finite w"
      "bar_width (Finite mx) d = tenths w" "one_decimal (tenths w)"
      using bar_width_bounded [OF _ _ _ mx1] by blast
    have z: "tenths w = ''0.0''" if "d_size d = Finite 0"
      using bar_width_zero [OF that mx1] by (simp only: pw(3))
    have "r = chart_row (escaped (d_name d)) (tenths w) (formatted (Num (d_size d)))"
      using r by (simp add: bar_row_chart_row [OF nm] pw(3))
    then show ?thesis
      using pw z by (simp add: v)
  qed
  have "list_all2 (\<lambda>d r. bar_row (Finite mx) d = Inr r) data rows"
    using rows by (rule mapM_list_all2)
  then have "list_all2 (\<lambda>d r. \<exists>p w. round_d (value_of (d_size d) / mx) = Finite p \<and>
                          round_d (p * 100) = Finite w \<and>
                          one_decimal (tenths w) \<and>
                          (if d_size d = Finite 0 then tenths w = ''0.0'' else True) \<and>
                          r = chart_row (escaped (d_name d)) (tenths w) (formatted (Num (d_size d))))
       data rows"
    by (rule list.rel_mono_strong) (rule w)
  with cm mx_def draw show ?thesis
    by blast
qed

theorem drawBars_scaled_rows_witness:
  "drawBars ''netChart'' three_bars stale_page
     = (None, stale_page\<lparr>netChart := Some
          (chart_row ''a&amp;b.js'' ''0.0'' ''0 B'' @
           chart_row ''b.css'' ''25.0'' ''512 B'' @
           chart_row ''c.png'' ''100.0'' ''2.0 KB'')\<rparr>)"
proof -
  have 1: "list_all (\<lambda>d. primitive (d_name d) \<and> nonneg (d_size d)) three_bars"
    by (simp add: three_bars_def nonneg_def)
  have 2: "netChart stale_page = Some ''old''"
    by (simp add: stale_page_def)
  have 3: "Max (set (1 # map (\<lambda>d. value_of (d_size d)) three_bars)) = 2048"
    by (simp add: three_bars_def value_of_def)
  have e: "escaped (Str ''a&b.js'') = ''a&amp;b.js''" "escaped (Str ''b.css'') = ''b.css''"
    "escaped (Str ''c.png'') = ''c.png''"
    by (simp_all add: escaped_def missing_def string_of_def entity_form_def)
  from drawBars_scaled_rows [OF 1 2] obtain rows where
    r: "list_all2 (\<lambda>d r. \<exists>p w. round_d (value_of (d_size d) / 2048) = Finite p \<and>
                          round_d (p * 100) = Finite w \<and>
                          one_decimal (tenths w) \<and>
                          (if d_size d = Finite 0 then tenths w = ''0.0'' else True) \<and>
                          r = chart_row (escaped (d_name d)) (tenths w) (formatted (Num (d_size d))))
         three_bars rows" and
    d: "drawBars ''netChart'' three_bars stale_page
          = (None, stale_page\<lparr>netChart := Some (concat rows)\<rparr>)"
    unfolding 3 by blast
  have q: "round_d 0 = Finite 0"
    by (simp add: round_d_def)
  have k: "w = 25" if "round_d (p * 100) = Finite w" and "p * 4 = 1" for p w :: rat
  proof -
    have h: "p * 100 = 25"
      using that(2) by simp
    have "round_d 25 = Finite w"
      using that(1) by (simp only: h)
    then show ?thesis
      by (simp add: round_d_nats)
  qed
  from r have "rows = [chart_row ''a&amp;b.js'' ''0.0'' ''0 B'',
                       chart_row ''b.css'' ''25.0'' ''512 B'',
                       chart_row ''c.png'' ''100.0'' ''2.0 KB'']"
    by (auto simp: three_bars_def list_all2_Cons1 value_of_def q round_d_quarter round_d_nats
        tenths_values formatted_values e dest: k)
  then show ?thesis
    using d by simp
qed

text \<open>
  A bar of infinite size is not negative, the maximum is infinite, the quotient of the
  two is not-a-number, and the width is written \<^verbatim>\<open>NaN\<close>.
\<close>

theorem drawBars_infinite_size_counterexample:
  "num_ge (d_size inf_bar) (Finite 0) \<and>
   chart_max [inf_bar] = PosInf \<and>
   bar_width (chart_max [inf_bar]) inf_bar = ''NaN'' \<and>
   \<not> one_decimal (bar_width (chart_max [inf_bar]) inf_bar) \<and>
   drawBars ''netChart'' [inf_bar] stale_page
     = (None, stale_page\<lparr>netChart := Some (chart_row ''a.js'' ''NaN'' ''Infinity GB'')\<rparr>)"
  by code_simp

section \<open>Claims on the Section Renderers\<close>

lemma sample_doc_wf: "analysis_document sample_doc" "inherits_scalars sample_doc"
  by (simp_all add: analysis_document_def inherits_scalars_def sample_doc_def is_object_def
      field_def missing_def sequence_def scalars_def)

lemma nan_doc_wf: "analysis_document nan_doc" "inherits_scalars nan_doc"
  by (simp_all add: analysis_document_def inherits_scalars_def nan_doc_def is_object_def
      field_def missing_def sequence_def scalars_def request_def text_or_missing_def)

text \<open>
  C7. For every analysis document whose metadata fields are scalars also where they
  are inherited through a \<^verbatim>\<open>__proto__\<close> entry of the metadata, and whose
  \<^verbatim>\<open>runtime.network_requests\<close> is absent or an empty list: rendering does not touch the
  Network container nor the chart mount point, so that after the clearing of \<open>upload\<close>
  the container is hidden and empty; nothing is thrown, and the other three containers
  are shown, each with the markup of its section.
\<close>

theorem network_untouched_without_requests:
  assumes "analysis_document d" and "inherits_scalars d"
    and "field (field d ''runtime'') ''network_requests'' = Undefined \<or>
         field (field d ''runtime'') ''network_requests'' = Arr []"
  shows "render_network url d pg = (None, pg) \<and>
         renderAll url d name pg
           = (None, pg\<lparr>meta := shown (meta_markup d name), archive := shown (archive_markup d),
                       matrix := shown (checks_markup d)\<rparr>) \<and>
         renderAll url d name (cleared pg)
           = (None, \<lparr>meta = shown (meta_markup d name), archive = shown (archive_markup d),
                     matrix = shown (checks_markup d), network = hidden, netChart = None,
                     alerts = alerts pg\<rparr>)"
proof -
  have none: "requests d = []"
    using assms(3) by (auto simp: requests_def)
  have net: "render_network url d p = (None, p)" for p
    using assms(1) none by (rule render_network_none)
  have r: "renderAll url d name p
             = (None, p\<lparr>meta := shown (meta_markup d name), archive := shown (archive_markup d),
                         matrix := shown (checks_markup d)\<rparr>)" for p
    by (simp only: renderAll_markup [OF assms(1,2)] net)
  have "renderAll url d name (cleared pg)
           = (None, \<lparr>meta = shown (meta_markup d name), archive = shown (archive_markup d),
                     matrix = shown (checks_markup d), network = hidden, netChart = None,
                     alerts = alerts pg\<rparr>)"
    by (simp add: r cleared_def)
  then show ?thesis
    using net r by blast
qed

theorem network_untouched_without_requests_witness:
  \<open>renderAll sample_url sample_doc ''ad.zip'' (cleared stale_page)
   = (None,
      \<lparr>meta = shown
          (''\<newline>    <h2>Metadata</h2>\<newline>    ''
           @ ''<a class="btn" href="/runs/''
           @ ''r1''
           @ ''/view" target="_blank">Open Creative Preview</a>''
           @ ''\<newline>    <div class="kv" style="margin-top:12px">\<newline>      <div>Scan Type</div><div>''
           @ ''Web scan''
           @ ''</div>\<newline>      <div>API Version</div><div>''
           @ ''v1''
           @ ''</div>\<newline>      <div>Unix Timestamp</div><div>''
           @ ''</div>\<newline>      <div>Scan Duration</div><div>''
           @ '' seconds</div>\<newline>      <div>Creative Type</div><div>''
           @ ''HTML5 Zip''
           @ ''</div>\<newline>      <div>Original Name</div><div>''
           @ ''ad.zip''
           @ ''</div>\<newline>      <div>Device</div><div>''
           @ ''Desktop''
           @ ''</div>\<newline>      <div>Language</div><div>''
           @ ''en-US''
           @ ''</div>\<newline>      <div>User-Agent</div><div class="list">''
           @ ''</div>\<newline>    </div>''),
      archive = shown
          (''\<newline>    <h2>ZIP Archive</h2>\<newline>    <table class="table"><thead>\<newline>      <tr><th></th><th>Filename</th><th class="ta-r">File Size</th><th class="ta-r">Compressed</th></tr>\<newline>    </thead><tbody>''
           @ ''\<newline>    <tr><td>''
           @ [CHR 0xF0, CHR 0x9F, CHR 0x93, CHR 0x84]
           @ ''</td>\<newline>        <td>''
           @ ''index.html''
           @ ''</td>\<newline>        <td class="ta-r">''
           @ ''2.0 KB''
           @ ''</td>\<newline>        <td class="ta-r">''
           @ ''512 B''
           @ ''</td></tr>''
           @ ''</tbody></table>''),
      matrix = shown
          (''<h2>Checks</h2>''
           @ ''\<newline>    <table class="table"><thead><tr><th>Category</th><th>Test</th><th class="ta-r">Result</th></tr></thead>\<newline>    <tbody>''
           @ ''\<newline>    <tr>\<newline>      <td>''
           @ ''-''
           @ ''</td>\<newline>      <td>''
           @ ''SSL''
           @ ''</td>\<newline>      <td class="ta-r"><span class="badge ''
           @ ''ok''
           @ ''">''
           @ ''Pass''
           @ ''</span>\<newline>        ''
           @ ''</td>\<newline>    </tr>''
           @ ''</tbody></table>''),
      network = hidden, netChart = None, alerts = []\<rparr>)\<close>
proof -
  have no: "field (field sample_doc ''runtime'') ''network_requests'' = Undefined \<or>
            field (field sample_doc ''runtime'') ''network_requests'' = Arr []"
    by (simp add: sample_doc_def field_def)
  have m: \<open>meta_markup sample_doc ''ad.zip'' =
        ''\<newline>    <h2>Metadata</h2>\<newline>    ''
        @ ''<a class="btn" href="/runs/''
        @ ''r1''
        @ ''/view" target="_blank">Open Creative Preview</a>''
        @ ''\<newline>    <div class="kv" style="margin-top:12px">\<newline>      <div>Scan Type</div><div>''
        @ ''Web scan''
        @ ''</div>\<newline>      <div>API Version</div><div>''
        @ ''v1''
        @ ''</div>\<newline>      <div>Unix Timestamp</div><div>''
        @ ''</div>\<newline>      <div>Scan Duration</div><div>''
        @ '' seconds</div>\<newline>      <div>Creative Type</div><div>''
        @ ''HTML5 Zip''
        @ ''</div>\<newline>      <div>Original Name</div><div>''
        @ ''ad.zip''
        @ ''</div>\<newline>      <div>Device</div><div>''
        @ ''Desktop''
        @ ''</div>\<newline>      <div>Language</div><div>''
        @ ''en-US''
        @ ''</div>\<newline>      <div>User-Agent</div><div class="list">''
        @ ''</div>\<newline>    </div>''\<close>
    by (simp add: meta_markup_def preview_link_def metadata_field_def sample_doc_def field_def
        escaped_def missing_def string_of_def or_else_def entity_form_def)
  have a: \<open>archive_markup sample_doc =
        ''\<newline>    <h2>ZIP Archive</h2>\<newline>    <table class="table"><thead>\<newline>      <tr><th></th><th>Filename</th><th class="ta-r">File Size</th><th class="ta-r">Compressed</th></tr>\<newline>    </thead><tbody>''
        @ ''\<newline>    <tr><td>''
        @ [CHR 0xF0, CHR 0x9F, CHR 0x93, CHR 0x84]
        @ ''</td>\<newline>        <td>''
        @ ''index.html''
        @ ''</td>\<newline>        <td class="ta-r">''
        @ ''2.0 KB''
        @ ''</td>\<newline>        <td class="ta-r">''
        @ ''512 B''
        @ ''</td></tr>''
        @ ''</tbody></table>''\<close>
    by (simp add: archive_markup_def archive_line_def entries_def sample_doc_def field_def
        escaped_def missing_def string_of_def entity_form_def formatted_values)
  have c: \<open>checks_markup sample_doc =
        ''<h2>Checks</h2>''
        @ ''\<newline>    <table class="table"><thead><tr><th>Category</th><th>Test</th><th class="ta-r">Result</th></tr></thead>\<newline>    <tbody>''
        @ ''\<newline>    <tr>\<newline>      <td>''
        @ ''-''
        @ ''</td>\<newline>      <td>''
        @ ''SSL''
        @ ''</td>\<newline>      <td class="ta-r"><span class="badge ''
        @ ''ok''
        @ ''">''
        @ ''Pass''
        @ ''</span>\<newline>        ''
        @ ''</td>\<newline>    </tr>''
        @ ''</tbody></table>''\<close>
    by (simp add: checks_markup_def check_line_def thumbnails_markup_def entries_def sample_doc_def
        field_def escaped_def missing_def string_of_def or_else_def entity_form_def)
  have "alerts stale_page = []"
    by (simp add: stale_page_def)
  then show ?thesis
    using network_untouched_without_requests
        [OF sample_doc_wf no, of sample_url stale_page "''ad.zip''"]
    by (simp only: m a c)
qed

text \<open>
  A document of the shape of an analysis document, without network requests, whose
  metadata holds an object under \<^verbatim>\<open>__proto__\<close>: the user agent is read from that object,
  it does not convert to a string, and the rendering throws before the Metadata
  container is written.
\<close>

theorem proto_metadata_counterexample:
  "analysis_document proto_doc \<and>
   field (field proto_doc ''runtime'') ''network_requests'' = Undefined \<and>
   renderAll sample_url proto_doc ''ad.zip'' (cleared stale_page)
     = (Some TypeError,
        \<lparr>meta = hidden, archive = hidden, matrix = hidden, network = hidden, netChart = None,
         alerts = []\<rparr>)"
  by (simp add: analysis_document_def proto_doc_def is_object_def field_def missing_def
      sequence_def scalars_def renderAll_def get_def fld_def previewBtn_def template_def
      or_else_def object_assign_def meta_html_def esc_def nullish_def cleared_def stale_page_def)

section \<open>The magnitude of a request that is no number\<close>

lemma escaped_address: "escaped (Str ''cdn.example.com/lib/app.js'') = ''cdn.example.com/lib/app.js''"
  by (simp add: escaped_def missing_def string_of_def entity_form_def)

lemma bar_width_NaN: "bar_width NaN d = ''NaN''"
  by (cases "d_size d") (simp_all add: bar_width_def)

lemma bar_width_values:
  "bar_width (Finite 2048) \<lparr>d_name = nm, d_size = Finite 0\<rparr> = ''0.0''"
  "bar_width (Finite 2048) \<lparr>d_name = nm, d_size = Finite 2048\<rparr> = ''100.0''"
proof -
  have "round_d 0 = Finite 0"
    by (simp add: round_d_def)
  then show "bar_width (Finite 2048) \<lparr>d_name = nm, d_size = Finite 0\<rparr> = ''0.0''"
    by (simp add: bar_width_def toFixed1_tenths tenths_values)
  have "toFixed1 (Finite 100) = tenths 100"
    by (rule toFixed1_tenths) simp_all
  then show "bar_width (Finite 2048) \<lparr>d_name = nm, d_size = Finite 2048\<rparr> = ''100.0''"
    by (simp add: bar_width_def round_d_nats tenths_values del: toFixed1.simps)
qed

text \<open>
  C6. A request whose \<^verbatim>\<open>bytes\<close> is the string \<^verbatim>\<open>abc\<close>, before a request of 2048 bytes.
  The string is truthy, so \<^verbatim>\<open>n.bytes||0\<close> does not replace it by 0, and as a number it
  is not-a-number. The maximum of the chart is then not-a-number, and so is the width
  of every bar, also that of the request of 2048 bytes, while the table and the value
  beside the bar show \<^verbatim>\<open>0 B\<close> for the same string. With the magnitude 0, the widths
  are \<^verbatim>\<open>0.0\<close> and \<^verbatim>\<open>100.0\<close>.
\<close>

theorem chart_non_numeric_bytes:
  "chart_data sample_url (Arr (requests nan_doc))
     = Inr [\<lparr>d_name = Str ''cdn.example.com/lib/app.js'', d_size = NaN\<rparr>,
            \<lparr>d_name = Str ''cdn.example.com/lib/app.js'', d_size = Finite 2048\<rparr>] \<and>
   fst (renderAll sample_url nan_doc ''ad.zip'' (cleared stale_page)) = None \<and>
   network (snd (renderAll sample_url nan_doc ''ad.zip'' (cleared stale_page)))
     = shown (network_markup
         (request_line ''cdn.example.com/lib/app.js'' [] [] [] ''0 B'' [] @
          request_line ''cdn.example.com/lib/app.js'' [] [] [] ''2.0 KB'' [])) \<and>
   netChart (snd (renderAll sample_url nan_doc ''ad.zip'' (cleared stale_page)))
     = Some (chart_row ''cdn.example.com/lib/app.js'' ''NaN'' ''0 B'' @
             chart_row ''cdn.example.com/lib/app.js'' ''NaN'' ''2.0 KB'') \<and>
   drawBars ''netChart''
       [\<lparr>d_name = Str ''cdn.example.com/lib/app.js'', d_size = Finite 0\<rparr>,
        \<lparr>d_name = Str ''cdn.example.com/lib/app.js'', d_size = Finite 2048\<rparr>] stale_page
     = (None, stale_page\<lparr>netChart := Some
          (chart_row ''cdn.example.com/lib/app.js'' ''0.0'' ''0 B'' @
           chart_row ''cdn.example.com/lib/app.js'' ''100.0'' ''2.0 KB'')\<rparr>)"
proof -
  let ?a = "''cdn.example.com/lib/app.js''"
  let ?ns = "requests nan_doc"
  let ?bars = "[\<lparr>d_name = Str ?a, d_size = NaN\<rparr>, \<lparr>d_name = Str ?a, d_size = Finite 2048\<rparr>]"
  let ?zero = "[\<lparr>d_name = Str ?a, d_size = Finite 0\<rparr>, \<lparr>d_name = Str ?a, d_size = Finite 2048\<rparr>]"
  have ns: "?ns = [Obj [(''url'', Str ''https://cdn.example.com/lib/app.js''), (''bytes'', Str ''abc'')],
                   Obj [(''url'', Str ''https://cdn.example.com/lib/app.js''),
                        (''bytes'', Num (Finite 2048))]]"
    by (simp add: requests_def nan_doc_def field_def)
  have sh: "short sample_url (Str ''https://cdn.example.com/lib/app.js'') = Inr (Str ?a)"
    by (simp add: short_def sample_url_def)
  have es: "esc (Str ?a) = Inr ?a"
    using esc_escaped [of "Str ?a"] by (simp add: escaped_address)
  have em: "esc (Str []) = Inr []"
    using esc_escaped [of "Str []"] by (simp add: escaped_def missing_def string_of_def)
  have cd: "chart_data sample_url (Arr ?ns) = Inr ?bars"
    by (simp add: ns chart_data_def js_map_def chart_entry_def fld_def get_def sh or_else_def
        to_number_def str_to_num_abc)
  have nh: "network_html sample_url (Arr ?ns)
              = Inr (network_markup (request_line ?a [] [] [] ''0 B'' [] @
                                     request_line ?a [] [] [] ''2.0 KB'' []))"
    by (simp add: ns network_html_def js_map_def net_row_def fld_def get_def sh es em or_else_def
        nullish_def bytes_values bytes_NaN template_def network_markup_def request_line_def)
  have cm: "chart_max ?bars = NaN"
    by (simp add: chart_max_def math_max_def)
  have rows: "mapM (bar_row NaN) ?bars
                = Inr [chart_row ?a ''NaN'' ''0 B'', chart_row ?a ''NaN'' ''2.0 KB'']"
    by (simp add: bar_row_chart_row bar_width_NaN escaped_address formatted_def bytes_NaN
        bytes_values)
  have net: "net_of nan_doc = Inr (Arr ?ns)"
    using nan_doc_wf(1) by (rule net_of_document)
  have rn: "render_network sample_url nan_doc pg
              = (None, pg\<lparr>network := shown (network_markup
                               (request_line ?a [] [] [] ''0 B'' [] @
                                request_line ?a [] [] [] ''2.0 KB'' [])),
                            netChart := Some (chart_row ?a ''NaN'' ''0 B'' @
                                              chart_row ?a ''NaN'' ''2.0 KB'')\<rparr>)" for pg
    by (simp add: render_network_def net fld_def get_def nh cd drawBars_def cm rows
        set_innerHTML_def del: mapM.simps) (simp add: ns)
  have ra: "renderAll sample_url nan_doc ''ad.zip'' pg
              = (None, pg\<lparr>meta := shown (meta_markup nan_doc ''ad.zip''),
                            archive := shown (archive_markup nan_doc),
                            matrix := shown (checks_markup nan_doc),
                            network := shown (network_markup
                               (request_line ?a [] [] [] ''0 B'' [] @
                                request_line ?a [] [] [] ''2.0 KB'' [])),
                            netChart := Some (chart_row ?a ''NaN'' ''0 B'' @
                                              chart_row ?a ''NaN'' ''2.0 KB'')\<rparr>)" for pg
    by (simp add: renderAll_markup [OF nan_doc_wf] rn)
  have nn: "list_all (\<lambda>d. nonneg (d_size d)) ?zero"
    by (simp add: nonneg_def)
  have zm: "chart_max ?zero = Finite 2048"
    using chart_max_finite [OF nn] by (simp add: value_of_def)
  have zrows: "mapM (bar_row (Finite 2048)) ?zero
                 = Inr [chart_row ?a ''0.0'' ''0 B'', chart_row ?a ''100.0'' ''2.0 KB'']"
    by (simp add: bar_row_chart_row bar_width_values escaped_address formatted_values)
  have zd: "drawBars ''netChart'' ?zero stale_page
              = (None, stale_page\<lparr>netChart := Some (chart_row ?a ''0.0'' ''0 B'' @
                                                   chart_row ?a ''100.0'' ''2.0 KB'')\<rparr>)"
    by (simp add: drawBars_def zm zrows set_innerHTML_def stale_page_def del: mapM.simps)
  show ?thesis
    using cd zd by (simp add: ra)
qed

end
